theory Spec2Isabelle
  imports Main "HOL-Library.Sublist" "HOL-Library.Word" "HOL-Library.Multiset"
    "HOL-Library.Char_ord" "HOL-Library.List_Lexorder"
begin

unbundle bit_operations_syntax

text \<open>
  A shallow embedding of the build orchestration core of sprout: the image resolver
  and embedder, the template renderer, the backend selector, the demultiplexer of
  the container log stream with the extraction of the store path, and the artifact
  locator. Calls into the operating system, docker and the libraries are results
  handed in by the caller; the requests made are returned as traces where a
  property speaks about them.
\<close>

section \<open>Go strings\<close>


definition HasSuffix :: "string \<Rightarrow> string \<Rightarrow> bool" where
  "HasSuffix s suf = suffix suf s"

text \<open>\<open>strings.Contains(s, sub)\<close>: \<open>sub\<close> occurs at some position of \<open>s\<close>.\<close>

fun Contains :: "string \<Rightarrow> string \<Rightarrow> bool" where
  "Contains [] sub = (sub = [])"
| "Contains (c # s) sub = (prefix sub (c # s) \<or> Contains s sub)"

definition TrimSuffix :: "string \<Rightarrow> string \<Rightarrow> string" where
  "TrimSuffix s suf = (if HasSuffix s suf then take (length s - length suf) s else s)"

text \<open>
  \<open>strings.ReplaceAll(s, old, new)\<close> for the only shape the image resolver uses:
  \<open>old\<close> and \<open>new\<close> are one byte each, so every occurrence of the byte is
  replaced in place.
\<close>

definition ReplaceAll :: "string \<Rightarrow> char \<Rightarrow> char \<Rightarrow> string" where
  "ReplaceAll s old new = map (\<lambda>c. if c = old then new else c) s"


section \<open>Data model (nix/nix.go, internal/nix/types.go)\<close>

record DockerImage =
  img_Name :: string
  img_LocalTag :: string
  img_TarPath :: string

text \<open>
  The two fields of compose-go's \<open>types.ServiceConfig\<close> that the repository reads,
  and its name. \<open>Build\<close> is a pointer to a build configuration: \<open>None\<close> is \<open>nil\<close>.
\<close>

record BuildConfig =
  bc_Context :: string

record ServiceConfig =
  svc_Name :: string
  svc_Image :: string
  svc_Build :: "BuildConfig option"

text \<open>
  \<open>project.Services\<close> is a Go map from service name to service. A \<open>range\<close> over it
  visits every entry once, in an order the language leaves open: the list is the
  entries in the order one such loop visits them.
\<close>

type_synonym Services = "(string \<times> ServiceConfig) list"


section \<open>ImageResolver: processDockerComposeImages\<close>

text \<open>The image name the loop body computes for one service (first \<open>if\<close> chain).\<close>

definition imageNameOf :: "ServiceConfig \<Rightarrow> string" where
  "imageNameOf service =
     (if svc_Image service \<noteq> [] then svc_Image service
      else if svc_Build service \<noteq> None then svc_Name service @ '':latest''
      else [])"

definition safeImageName :: "string \<Rightarrow> string" where
  "safeImageName imageName =
     ReplaceAll (ReplaceAll (ReplaceAll imageName (CHR ''/'') (CHR ''_''))
                   (CHR '':'') (CHR ''_'')) (CHR ''-'') (CHR ''_'')"

definition localTag :: "string \<Rightarrow> string" where
  "localTag imageName = ''embedded/'' @ safeImageName imageName"

definition tarFileName :: "string \<Rightarrow> string" where
  "tarFileName imageName = safeImageName imageName @ ''.tar''"

definition newDockerImage :: "string \<Rightarrow> DockerImage" where
  "newDockerImage imageName =
     \<lparr>img_Name = imageName,
      img_LocalTag = localTag imageName,
      img_TarPath = ''/tmp/'' @ tarFileName imageName\<rparr>"

text \<open>
  The loop over \<open>project.Services\<close>. \<open>imageMap\<close> is the Go \<open>map[string]bool\<close>:
  a key that was never stored reads as \<open>false\<close>.
\<close>

fun extractImages ::
  "Services \<Rightarrow> DockerImage list \<Rightarrow> (string \<Rightarrow> bool) \<Rightarrow> DockerImage list \<times> (string \<Rightarrow> bool)"
where
  "extractImages [] images imageMap = (images, imageMap)"
| "extractImages ((key, service) # rest) images imageMap =
     (let imageName = imageNameOf service in
      if imageName \<noteq> [] \<and> \<not> imageMap imageName
      then extractImages rest (images @ [newDockerImage imageName]) (imageMap(imageName := True))
      else extractImages rest images imageMap)"

definition resolveImages :: "Services \<Rightarrow> DockerImage list" where
  "resolveImages services = fst (extractImages services [] (\<lambda>_. False))"


section \<open>ImageResolver: createModifiedComposeContent\<close>

text \<open>
  \<open>imageMapping\<close> is a Go \<open>map[string]string\<close>; a missing key reads as the empty
  string.
\<close>

definition imageMappingOf :: "DockerImage list \<Rightarrow> (string \<Rightarrow> string)" where
  "imageMappingOf images =
     fold (\<lambda>img m. m(img_Name img := img_LocalTag img)) images (\<lambda>_. [])"

definition rewriteService :: "(string \<Rightarrow> string) \<Rightarrow> string \<Rightarrow> ServiceConfig \<Rightarrow> ServiceConfig" where
  "rewriteService imageMapping serviceName service =
     (if svc_Image service \<noteq> [] \<and> imageMapping (svc_Image service) \<noteq> []
      then service\<lparr>svc_Image := imageMapping (svc_Image service)\<rparr>
      else if svc_Build service \<noteq> None
      then service\<lparr>svc_Image := ''embedded/'' @ serviceName @ ''_latest'', svc_Build := None\<rparr>
      else service)"

text \<open>
  The second loop stores every visited service back under its own key, so each entry
  is rewritten once and independently of the others.
\<close>

definition modifyServices :: "DockerImage list \<Rightarrow> Services \<Rightarrow> Services" where
  "modifyServices images services =
     map (\<lambda>(serviceName, service).
            (serviceName, rewriteService (imageMappingOf images) serviceName service))
         services"


section \<open>Errors\<close>

text \<open>
  Every \<open>fmt.Errorf\<close> of the modelled functions is a constructor; the arguments are
  the values the message is formatted from. \<open>os_error\<close> is an error value
  handed back by the operating system: \<open>os.IsNotExist\<close> holds of \<open>ErrNotExist\<close> only.
\<close>

datatype os_error = ErrNotExist | ErrOther

datatype error =
    PathDoesNotExist string
  | DockerImageNotFound string
  | ImageFileNotFound string
  | ReadDirFailed os_error
  | NoImgFileFound
  | NixStorePathNotFound
  | ParseComposeFailed
  | MarshalFailed
  | BuildServiceFailed string
  | ImageTagFailed string string
  | ImageSaveFailed string
  | TarCreateFailed string
  | TarWriteFailed string
  | DockerClientFailed
  | TemplateError string
  | LookPathFailed


section \<open>Splitting and trimming text\<close>

definition newline :: char where
  "newline = CHR 0x0A"

text \<open>
  \<open>unicode.IsSpace\<close> on the ASCII range. Go also counts U+0085, U+00A0 and the
  other Unicode spaces, which are multi-byte sequences in a Go string; the model
  coincides with Go on text whose leading and trailing bytes are ASCII.
\<close>

definition isSpace :: "char \<Rightarrow> bool" where
  "isSpace c = (c = CHR 0x09 \<or> c = CHR 0x0A \<or> c = CHR 0x0B \<or> c = CHR 0x0C
                \<or> c = CHR 0x0D \<or> c = CHR 0x20)"

definition TrimSpace :: "string \<Rightarrow> string" where
  "TrimSpace s = rev (dropWhile isSpace (rev (dropWhile isSpace s)))"

text \<open>
  \<open>strings.Split(s, sep)\<close> for a one-byte separator: the pieces between the
  separators, \<open>[""]\<close> for the empty string.
\<close>

fun Split :: "string \<Rightarrow> char \<Rightarrow> string list" where
  "Split [] sep = [[]]"
| "Split (c # s) sep =
     (if c = sep then [] # Split s sep
      else (case Split s sep of [] \<Rightarrow> [[c]] | w # ws \<Rightarrow> (c # w) # ws))"

text \<open>\<open>strings.Join(elems, sep)\<close>.\<close>

fun JoinStrings :: "string list \<Rightarrow> string \<Rightarrow> string" where
  "JoinStrings [] sep = []"
| "JoinStrings [e] sep = e"
| "JoinStrings (e # es) sep = e @ sep @ JoinStrings es sep"


section \<open>Package path/filepath on Unix\<close>

text \<open>
  \<open>filepath.Ext\<close>: the loop walks from the last byte towards the front, stops at a
  path separator, and returns the suffix that starts at the first dot it meets.
  The first argument is the part still to be visited, last byte first; the second
  is the suffix already visited.
\<close>

fun ExtLoop :: "string \<Rightarrow> string \<Rightarrow> string" where
  "ExtLoop [] visited = []"
| "ExtLoop (c # r) visited =
     (if c = CHR ''/'' then []
      else if c = CHR ''.'' then c # visited
      else ExtLoop r (c # visited))"

definition Ext :: "string \<Rightarrow> string" where
  "Ext path = ExtLoop (rev path) []"

text \<open>
  \<open>filepath.Clean\<close> works element by element: empty elements and \<open>.\<close> are dropped,
  \<open>..\<close> removes the element before it, is dropped at the root, and is kept at the
  front of a relative path. \<open>out\<close> is the output so far, last element first.
\<close>

fun cleanElems :: "bool \<Rightarrow> string list \<Rightarrow> string list \<Rightarrow> string list" where
  "cleanElems rooted [] out = rev out"
| "cleanElems rooted (e # es) out =
     (if e = [] \<or> e = ''.'' then cleanElems rooted es out
      else if e = ''..'' then
        (case out of
           [] \<Rightarrow> if rooted then cleanElems rooted es [] else cleanElems rooted es [''..'']
         | t # ts \<Rightarrow> if t = ''..'' then cleanElems rooted es (''..'' # out)
                    else cleanElems rooted es ts)
      else cleanElems rooted es (e # out))"

definition Clean :: "string \<Rightarrow> string" where
  "Clean path =
     (if path = [] then ''.''
      else if hd path = CHR ''/''
      then ''/'' @ JoinStrings (cleanElems True (Split path (CHR ''/'')) []) ''/''
      else (case cleanElems False (Split path (CHR ''/'')) [] of
              [] \<Rightarrow> ''.''
            | e # es \<Rightarrow> JoinStrings (e # es) ''/''))"

text \<open>
  \<open>filepath.Join\<close>: leading empty elements are skipped, the rest is joined with
  the separator and cleaned; no non-empty element gives the empty string.
\<close>

definition Join :: "string list \<Rightarrow> string" where
  "Join elem =
     (case dropWhile (\<lambda>e. e = []) elem of
        [] \<Rightarrow> []
      | e # es \<Rightarrow> Clean (JoinStrings (e # es) ''/''))"

text \<open>
  \<open>filepath.Base\<close>: trailing separators are stripped, then the last element is
  taken; \<open>.\<close> for the empty path and \<open>/\<close> for a path of separators only.
\<close>

definition Base :: "string \<Rightarrow> string" where
  "Base path =
     (if path = [] then ''.''
      else (let stripped = rev (dropWhile (\<lambda>c. c = CHR ''/'') (rev path));
                element = rev (takeWhile (\<lambda>c. c \<noteq> CHR ''/'') (rev stripped))
            in if element = [] then ''/'' else element))"

text \<open>\<open>filepath.Dir\<close>: everything up to the last separator, cleaned.\<close>

definition Dir :: "string \<Rightarrow> string" where
  "Dir path = Clean (rev (dropWhile (\<lambda>c. c \<noteq> CHR ''/'') (rev path)))"


section \<open>ArtifactLocator: FindImageFile (nix/nix.go)\<close>

text \<open>
  The file system as the function sees it: \<open>os.Stat\<close> and \<open>os.ReadDir\<close> by path.
  \<open>os.ReadDir\<close> returns the entries sorted by file name. \<open>fs_op\<close> records the
  calls made, in order. The function is the one of \<open>nix/nix.go\<close>; the copy in the
  refactored sources differs from it in one case only, a directory named
  \<open>result.img\<close> under a path with the marker, where the copy goes on to look for
  \<open>result.img\<close> inside that directory.
\<close>

record FileInfo =
  fi_IsDir :: bool

record DirEntry =
  de_Name :: string
  de_IsDir :: bool

record FileSystem =
  Stat :: "string \<Rightarrow> os_error + FileInfo"
  ReadDir :: "string \<Rightarrow> os_error + DirEntry list"

datatype fs_op = OpStat string | OpReadDir string

definition isImgEntry :: "DirEntry \<Rightarrow> bool" where
  "isImgEntry entry = (\<not> de_IsDir entry \<and> Ext (de_Name entry) = ''.img'')"

definition FindImageFile :: "FileSystem \<Rightarrow> string \<Rightarrow> fs_op list \<times> (error + string)" where
  "FindImageFile fs basePath =
     (case Stat fs basePath of
        Inl err \<Rightarrow> ([OpStat basePath], Inl (PathDoesNotExist basePath))
      | Inr fileInfo \<Rightarrow>
          if \<not> fi_IsDir fileInfo \<and> Ext basePath = ''.img''
          then ([OpStat basePath], Inr basePath)
          else if Contains basePath ''sprout-docker-''
          then
            (if Base basePath = ''result.img''
             then (if \<not> fi_IsDir fileInfo
                   then ([OpStat basePath], Inr basePath)
                   else ([OpStat basePath], Inl (DockerImageNotFound basePath)))
             else (let resultImg = Join [basePath, ''result.img''] in
                   case Stat fs resultImg of
                     Inr info \<Rightarrow> ([OpStat basePath, OpStat resultImg], Inr resultImg)
                   | Inl err \<Rightarrow>
                       ([OpStat basePath, OpStat resultImg], Inl (DockerImageNotFound resultImg))))
          else
            (let sdImageDir = Join [basePath, ''sd-image''] in
             if Stat fs sdImageDir = Inl ErrNotExist
             then ([OpStat basePath, OpStat sdImageDir], Inl (ImageFileNotFound basePath))
             else
               (case ReadDir fs sdImageDir of
                  Inl err \<Rightarrow>
                    ([OpStat basePath, OpStat sdImageDir, OpReadDir sdImageDir],
                     Inl (ReadDirFailed err))
                | Inr entries \<Rightarrow>
                    (case find isImgEntry entries of
                       Some entry \<Rightarrow>
                         ([OpStat basePath, OpStat sdImageDir, OpReadDir sdImageDir],
                          Inr (Join [sdImageDir, de_Name entry]))
                     | None \<Rightarrow>
                         ([OpStat basePath, OpStat sdImageDir, OpReadDir sdImageDir],
                          Inl NoImgFileFound)))))"

text \<open>
  The locator as the specification words it (section 4.8): the caller passes the
  kind of backend that produced the path, and the strategy follows the kind. For a
  Local result the subdirectory has to hold exactly one image file.
\<close>

datatype BackendKind = Local | Containerized

definition locate_spec :: "BackendKind \<Rightarrow> FileSystem \<Rightarrow> string \<Rightarrow> error + string" where
  "locate_spec kind fs path =
     (case Stat fs path of
        Inl err \<Rightarrow> Inl (PathDoesNotExist path)
      | Inr fileInfo \<Rightarrow>
          if \<not> fi_IsDir fileInfo \<and> Ext path = ''.img'' then Inr path
          else (case kind of
                  Containerized \<Rightarrow>
                    (if Base path = ''result.img''
                     then (if \<not> fi_IsDir fileInfo then Inr path
                           else Inl (DockerImageNotFound path))
                     else (case Stat fs (Join [path, ''result.img'']) of
                             Inr info \<Rightarrow> Inr (Join [path, ''result.img''])
                           | Inl err \<Rightarrow> Inl (DockerImageNotFound (Join [path, ''result.img'']))))
                | Local \<Rightarrow>
                    (if Stat fs (Join [path, ''sd-image'']) = Inl ErrNotExist
                     then Inl (ImageFileNotFound path)
                     else (case ReadDir fs (Join [path, ''sd-image'']) of
                             Inl err \<Rightarrow> Inl (ReadDirFailed err)
                           | Inr entries \<Rightarrow>
                               (case filter isImgEntry entries of
                                  [entry] \<Rightarrow> Inr (Join [Join [path, ''sd-image''], de_Name entry])
                                | _ \<Rightarrow> Inl NoImgFileFound)))))"

text \<open>
  A file system for the examples: a build result directory whose name carries the
  marker of the container working directory and that holds \<open>sd-image/nixos.img\<close>,
  a build result directory without the marker that holds \<open>result.img\<close>, a build
  result directory without the marker that holds \<open>sd-image/nixos.img\<close>, and a plain
  image file.
\<close>

definition exampleFs :: FileSystem where
  "exampleFs =
     \<lparr>Stat = (\<lambda>p.
         if p = ''/nix/store/k2-sprout-docker-image'' then Inr \<lparr>fi_IsDir = True\<rparr>
         else if p = ''/nix/store/k2-sprout-docker-image/sd-image'' then Inr \<lparr>fi_IsDir = True\<rparr>
         else if p = ''/nix/store/k2-sprout-docker-image/sd-image/nixos.img''
           then Inr \<lparr>fi_IsDir = False\<rparr>
         else if p = ''/nix/store/q1-nixos-image'' then Inr \<lparr>fi_IsDir = True\<rparr>
         else if p = ''/nix/store/q1-nixos-image/result.img'' then Inr \<lparr>fi_IsDir = False\<rparr>
         else if p = ''/home/u/build/image.img'' then Inr \<lparr>fi_IsDir = False\<rparr>
         else if p = ''/nix/store/m3-nixos-sd'' then Inr \<lparr>fi_IsDir = True\<rparr>
         else if p = ''/nix/store/m3-nixos-sd/sd-image'' then Inr \<lparr>fi_IsDir = True\<rparr>
         else Inl ErrNotExist),
      ReadDir = (\<lambda>p.
         if p = ''/nix/store/k2-sprout-docker-image''
           then Inr [\<lparr>de_Name = ''sd-image'', de_IsDir = True\<rparr>]
         else if p = ''/nix/store/k2-sprout-docker-image/sd-image''
           then Inr [\<lparr>de_Name = ''nixos.img'', de_IsDir = False\<rparr>]
         else if p = ''/nix/store/q1-nixos-image''
           then Inr [\<lparr>de_Name = ''result.img'', de_IsDir = False\<rparr>]
         else if p = ''/nix/store/m3-nixos-sd/sd-image''
           then Inr [\<lparr>de_Name = ''boot.img'', de_IsDir = True\<rparr>,
                     \<lparr>de_Name = ''nixos.img'', de_IsDir = False\<rparr>]
         else Inl ErrNotExist)\<rparr>"


section \<open>ContainerizedBackend: processDockerLogs (nix/build_docker.go)\<close>

text \<open>
  \<open>bufio.Scanner\<close> with the default split function \<open>ScanLines\<close> over one payload:
  the text up to each line feed, without a trailing carriage return; a last line
  without line feed counts when it is not empty. A token that does not fit the
  scanner's buffer of \<open>MaxScanTokenSize\<close> bytes ends the scan with an error, which
  the caller does not look at.
\<close>

definition MaxScanTokenSize :: nat where
  "MaxScanTokenSize = 65536"

definition dropCR :: "string \<Rightarrow> string" where
  "dropCR data = (if data \<noteq> [] \<and> last data = CHR 0x0D then butlast data else data)"

function scanLines :: "string \<Rightarrow> string list" where
  "scanLines data =
     (if data = [] then []
      else if newline \<in> set data
      then (if length (takeWhile (\<lambda>c. c \<noteq> newline) data) < MaxScanTokenSize
            then dropCR (takeWhile (\<lambda>c. c \<noteq> newline) data)
                   # scanLines (tl (dropWhile (\<lambda>c. c \<noteq> newline) data))
            else [])
      else (if length data < MaxScanTokenSize then [dropCR data] else []))"
  by pat_completeness auto
termination
proof (relation "measure length")
  fix data :: string
  assume "data \<noteq> []" and "newline \<in> set data"
  then have "dropWhile (\<lambda>c. c \<noteq> newline) data \<noteq> []"
    by simp
  then have "length (tl (dropWhile (\<lambda>c. c \<noteq> newline) data))
               < length (dropWhile (\<lambda>c. c \<noteq> newline) data)"
    by (cases "dropWhile (\<lambda>c. c \<noteq> newline) data") simp_all
  also have "\<dots> \<le> length data"
    by (rule length_dropWhile_le)
  finally show "(tl (dropWhile (\<lambda>c. c \<noteq> newline) data), data) \<in> measure length"
    by simp
qed simp

declare scanLines.simps [simp del]

text \<open>
  What one payload adds to \<open>buildOutput\<close>: every line, trimmed, when it is not
  empty, followed by a line feed.
\<close>

definition payloadLines :: "string \<Rightarrow> string list" where
  "payloadLines payload = filter (\<lambda>line. line \<noteq> []) (map TrimSpace (scanLines payload))"

definition writeLines :: "string list \<Rightarrow> string" where
  "writeLines lines = concat (map (\<lambda>line. line @ [newline]) lines)"

text \<open>
  The payload size of a header of 8 bytes: bytes 4 to 7, big endian, computed in
  Go's \<open>int\<close>, which has 64 bits on the platforms the tool is built for.
\<close>

definition payloadSize :: "string \<Rightarrow> int" where
  "payloadSize header =
     sint ((push_bit 24 (of_char (header ! 4)) OR push_bit 16 (of_char (header ! 5))
            OR push_bit 8 (of_char (header ! 6)) OR of_char (header ! 7)) :: 64 word)"

text \<open>
  The loop of \<open>processDockerLogs\<close> over the bytes the log stream delivers before it
  ends. \<open>io.ReadFull\<close> fails when fewer bytes are left than it was asked for, and the
  loop breaks; a header with a size of zero or less is skipped. The result is the
  accumulation buffer \<open>buildOutput\<close>. The rolling display that every line is also
  sent to is not part of the model.
\<close>

function processDockerLogs :: "string \<Rightarrow> string \<Rightarrow> string" where
  "processDockerLogs logs buildOutput =
     (if length logs < 8 then buildOutput
      else if payloadSize (take 8 logs) \<le> 0
      then processDockerLogs (drop 8 logs) buildOutput
      else if length (drop 8 logs) < nat (payloadSize (take 8 logs))
      then buildOutput
      else processDockerLogs
             (drop (nat (payloadSize (take 8 logs))) (drop 8 logs))
             (buildOutput
                @ writeLines (payloadLines (take (nat (payloadSize (take 8 logs))) (drop 8 logs)))))"
  by pat_completeness auto
termination
  by (relation "measure (\<lambda>(logs, buildOutput). length logs)") auto

declare processDockerLogs.simps [simp del]








section \<open>ContainerizedBackend: extractNixStorePath (nix/build_docker.go)\<close>




text \<open>
  A line as \<open>processDockerLogs\<close> appends it to the accumulation buffer: not empty,
  without a line feed inside, and trimmed.
\<close>

definition accumulatedLine :: "string \<Rightarrow> bool" where
  "accumulatedLine l = (l \<noteq> [] \<and> newline \<notin> set l \<and> \<not> isSpace (hd l) \<and> \<not> isSpace (last l))"


section \<open>BuildBackendSelector: Build (nix/build.go)\<close>

text \<open>
  The process environment: the environment variables, and what \<open>exec.LookPath\<close>
  finds on the search path. \<open>os.Getenv\<close> gives the empty string for a variable
  that is not set. The two backends are parameters of \<open>Build\<close>.
\<close>

record Environment =
  env_vars :: "string \<rightharpoonup> string"
  env_LookPath :: "string \<Rightarrow> error + string"

definition Getenv :: "Environment \<Rightarrow> string \<Rightarrow> string" where
  "Getenv env key = (case env_vars env key of None \<Rightarrow> [] | Some v \<Rightarrow> v)"

definition Build ::
  "Environment \<Rightarrow> (string \<Rightarrow> string \<Rightarrow> 'sf \<Rightarrow> 'r) \<Rightarrow> (string \<Rightarrow> 'sf \<Rightarrow> 'r)
     \<Rightarrow> string \<Rightarrow> 'sf \<Rightarrow> 'r"
where
  "Build env buildLocal buildWithDocker filename sproutFile =
     (if Getenv env ''SPROUT_DISABLE_LOCAL_NIX'' \<noteq> []
      then buildWithDocker filename sproutFile
      else (case env_LookPath env ''nix-build'' of
              Inr nixPath \<Rightarrow> buildLocal nixPath filename sproutFile
            | Inl err \<Rightarrow> buildWithDocker filename sproutFile))"

text \<open>The backend a run of \<open>Build\<close> hands the build to.\<close>

definition selectedBackend :: "Environment \<Rightarrow> BackendKind" where
  "selectedBackend env =
     Build env (\<lambda>nixPath filename sproutFile. Local) (\<lambda>filename sproutFile. Containerized) [] ()"


text \<open>
  Environments for the examples: the first has the disabling variable set and
  \<open>nix-build\<close> on the search path; the second has the variable unset and
  \<open>nix-build\<close> on the search path; the third has neither.
\<close>

definition exampleEnvDisabled :: Environment where
  "exampleEnvDisabled =
     \<lparr>env_vars = [''SPROUT_DISABLE_LOCAL_NIX'' \<mapsto> ''1'', ''HOME'' \<mapsto> ''/home/u''],
      env_LookPath = (\<lambda>file. if file = ''nix-build'' then Inr ''/usr/bin/nix-build''
                               else Inl LookPathFailed)\<rparr>"

definition exampleEnvLocal :: Environment where
  "exampleEnvLocal =
     \<lparr>env_vars = [''HOME'' \<mapsto> ''/home/u''],
      env_LookPath = (\<lambda>file. if file = ''nix-build'' then Inr ''/usr/bin/nix-build''
                               else Inl LookPathFailed)\<rparr>"

definition exampleEnvNoNix :: Environment where
  "exampleEnvNoNix =
     \<lparr>env_vars = [''HOME'' \<mapsto> ''/home/u''],
      env_LookPath = (\<lambda>file. Inl LookPathFailed)\<rparr>"


section \<open>ImageEmbedder (internal/nix/docker.go)\<close>

text \<open>
  The docker daemon, the compose tool and the target file system answer each
  request with success or failure; \<open>docker_op\<close> records the requests made, in order.
  A function that returns a Go \<open>error\<close> returns the requests it made and the error,
  \<open>None\<close> for \<open>nil\<close>.
\<close>

datatype docker_op =
    ComposeBuild string string
  | ImagePull string string
  | ImageTag string string
  | ImageSave string
  | TarCreate string
  | TarWrite string

record DockerWorld =
  clientOk :: bool
  composeBuildOk :: "string \<Rightarrow> string \<Rightarrow> bool"
  imagePullOk :: "string \<Rightarrow> string \<Rightarrow> bool"
  imageTagOk :: "string \<Rightarrow> string \<Rightarrow> bool"
  imageSaveOk :: "string \<Rightarrow> bool"
  tarCreateOk :: "string \<Rightarrow> bool"
  tarWriteOk :: "string \<Rightarrow> bool"

definition buildLocalImage :: "DockerWorld \<Rightarrow> string \<Rightarrow> string \<Rightarrow> docker_op list \<times> error option" where
  "buildLocalImage world imageName workingDir =
     (let serviceName = TrimSuffix imageName '':latest'' in
      ([ComposeBuild serviceName workingDir],
       if composeBuildOk world serviceName workingDir then None
       else Some (BuildServiceFailed serviceName)))"

definition pullDefaultImage :: "DockerWorld \<Rightarrow> string \<Rightarrow> docker_op list \<times> error option" where
  "pullDefaultImage world imageName = ([ImagePull imageName []], None)"

definition pullImage :: "DockerWorld \<Rightarrow> string \<Rightarrow> docker_op list \<times> error option" where
  "pullImage world imageName =
     (if imagePullOk world imageName ''linux/arm64''
      then ([ImagePull imageName ''linux/arm64''], None)
      else (ImagePull imageName ''linux/arm64'' # fst (pullDefaultImage world imageName),
            snd (pullDefaultImage world imageName)))"

definition buildOrPullImage ::
  "DockerWorld \<Rightarrow> DockerImage \<Rightarrow> string \<Rightarrow> docker_op list \<times> error option"
where
  "buildOrPullImage world img workingDir =
     (if HasSuffix (img_Name img) '':latest'' \<and> \<not> Contains (img_Name img) ''/''
      then buildLocalImage world (img_Name img) workingDir
      else pullImage world (img_Name img))"

definition saveImageToFile :: "DockerWorld \<Rightarrow> string \<Rightarrow> docker_op list \<times> error option" where
  "saveImageToFile world tarPath =
     (if \<not> tarCreateOk world tarPath then ([TarCreate tarPath], Some (TarCreateFailed tarPath))
      else if \<not> tarWriteOk world tarPath
      then ([TarCreate tarPath, TarWrite tarPath], Some (TarWriteFailed tarPath))
      else ([TarCreate tarPath, TarWrite tarPath], None))"

definition tagAndSaveImage :: "DockerWorld \<Rightarrow> DockerImage \<Rightarrow> docker_op list \<times> error option" where
  "tagAndSaveImage world img =
     (if \<not> imageTagOk world (img_Name img) (img_LocalTag img)
      then ([ImageTag (img_Name img) (img_LocalTag img)],
            Some (ImageTagFailed (img_Name img) (img_LocalTag img)))
      else if \<not> imageSaveOk world (img_LocalTag img)
      then ([ImageTag (img_Name img) (img_LocalTag img), ImageSave (img_LocalTag img)],
            Some (ImageSaveFailed (img_LocalTag img)))
      else ([ImageTag (img_Name img) (img_LocalTag img), ImageSave (img_LocalTag img)]
              @ fst (saveImageToFile world (img_TarPath img)),
            snd (saveImageToFile world (img_TarPath img))))"

text \<open>The loop of \<open>buildAndSaveDockerImages\<close> over \<open>dockerConfig.Images\<close>.\<close>

fun buildAndSaveLoop ::
  "DockerWorld \<Rightarrow> DockerImage list \<Rightarrow> string \<Rightarrow> docker_op list \<times> error option"
where
  "buildAndSaveLoop world [] workingDir = ([], None)"
| "buildAndSaveLoop world (img # images) workingDir =
     (case buildOrPullImage world img workingDir of
        (ops1, Some err) \<Rightarrow> (ops1, Some err)
      | (ops1, None) \<Rightarrow>
          (case tagAndSaveImage world img of
             (ops2, Some err) \<Rightarrow> (ops1 @ ops2, Some err)
           | (ops2, None) \<Rightarrow>
               (case buildAndSaveLoop world images workingDir of
                  (ops3, result) \<Rightarrow> (ops1 @ ops2 @ ops3, result))))"

text \<open>The function fails before the loop when the docker client cannot be created.\<close>

definition buildAndSaveDockerImages ::
  "DockerWorld \<Rightarrow> DockerImage list \<Rightarrow> string \<Rightarrow> docker_op list \<times> error option"
where
  "buildAndSaveDockerImages world images workingDir =
     (if \<not> clientOk world then ([], Some DockerClientFailed)
      else buildAndSaveLoop world images workingDir)"

text \<open>
  The shape that \<open>buildOrPullImage\<close> takes for an image to build from a context,
  and a docker daemon for the examples that answers every request with success.
\<close>

definition localBuildShape :: "string \<Rightarrow> bool" where
  "localBuildShape name = (HasSuffix name '':latest'' \<and> \<not> Contains name ''/'')"

definition exampleWorld :: DockerWorld where
  "exampleWorld =
     \<lparr>clientOk = True,
      composeBuildOk = (\<lambda>serviceName workingDir. True),
      imagePullOk = (\<lambda>imageName platform. True),
      imageTagOk = (\<lambda>imageName tag. True),
      imageSaveOk = (\<lambda>tag. True),
      tarCreateOk = (\<lambda>tarPath. True),
      tarWriteOk = (\<lambda>tarPath. True)\<rparr>"


text \<open>
  What the embedder may ask for, given the images it was handed: a compose build
  only for an image of the local-build shape, under the service name read off the
  image name, and a pull only for an image of any other shape.
\<close>

definition opAllowed :: "DockerImage list \<Rightarrow> docker_op \<Rightarrow> bool" where
  "opAllowed images op =
     (case op of
        ComposeBuild serviceName workingDir \<Rightarrow>
          (\<exists>img \<in> set images. localBuildShape (img_Name img)
              \<and> serviceName = TrimSuffix (img_Name img) '':latest'')
      | ImagePull imageName platform \<Rightarrow>
          (\<exists>img \<in> set images. \<not> localBuildShape (img_Name img) \<and> imageName = img_Name img)
      | _ \<Rightarrow> True)"


section \<open>Configuration (internal/nix/types.go)\<close>

text \<open>
  \<open>Networks\<close> is a Go map from network name to credentials: its entries, with
  pairwise different names, in whatever order the map holds them.
\<close>

record NetworkConfig =
  nc_PSK :: string

record WirelessConfig =
  w_Enabled :: bool
  w_Networks :: "(string \<times> NetworkConfig) list"

record OutputConfig =
  out_Path :: string

record DockerComposeConfig =
  dc_Enabled :: bool
  dc_Path :: string
  dc_Content :: string
  dc_ModifiedContent :: string
  dc_Images :: "DockerImage list"

record SproutFile =
  sf_SSHKeys :: "string list"
  sf_Username :: string
  sf_Wireless :: WirelessConfig
  sf_Output :: OutputConfig
  sf_DockerCompose :: DockerComposeConfig
  sf_Autodiscovery :: bool
  sf_SproutBinaryPath :: string


section \<open>ImageResolver: the whole of processDockerComposeImages\<close>

text \<open>
  \<open>LoadProject\<close> (compose-go) and \<open>Marshal\<close> (yaml) are library calls and
  parameters here. The errors of the callees are passed on without the prefix the
  source wraps them in.
\<close>

definition createModifiedComposeContent ::
  "(Services \<Rightarrow> os_error + string) \<Rightarrow> DockerComposeConfig \<Rightarrow> Services
     \<Rightarrow> error + DockerComposeConfig"
where
  "createModifiedComposeContent Marshal dockerConfig services =
     (case Marshal (modifyServices (dc_Images dockerConfig) services) of
        Inl err \<Rightarrow> Inl MarshalFailed
      | Inr modifiedContent \<Rightarrow> Inr (dockerConfig\<lparr>dc_ModifiedContent := modifiedContent\<rparr>))"

definition processDockerComposeImages ::
  "(string \<Rightarrow> os_error + Services) \<Rightarrow> (Services \<Rightarrow> os_error + string) \<Rightarrow> DockerWorld
     \<Rightarrow> DockerComposeConfig \<Rightarrow> string \<Rightarrow> docker_op list \<times> (error + DockerComposeConfig)"
where
  "processDockerComposeImages LoadProject Marshal world dockerConfig composePath =
     (case LoadProject composePath of
        Inl err \<Rightarrow> ([], Inl ParseComposeFailed)
      | Inr services \<Rightarrow>
          (case createModifiedComposeContent Marshal
                  (dockerConfig\<lparr>dc_Images := resolveImages services\<rparr>) services of
             Inl err \<Rightarrow> ([], Inl err)
           | Inr dockerConfig' \<Rightarrow>
               (case buildAndSaveDockerImages world (dc_Images dockerConfig') (Dir composePath) of
                  (ops, Some err) \<Rightarrow> (ops, Inl err)
                | (ops, None) \<Rightarrow> (ops, Inr dockerConfig'))))"

text \<open>
  The canonical references of a specification: the image names of its services,
  declared or synthesized, without the empty name of a service that has neither an
  image nor a build context.
\<close>

definition canonicalRefs :: "Services \<Rightarrow> string set" where
  "canonicalRefs services = set (map (imageNameOf \<circ> snd) services) - {[]}"


section \<open>TemplateRenderer: GenerateImage (nix/build.go)\<close>

text \<open>
  The template text \<open>imageNixTemplate\<close> is an embedded file and a parameter here, as
  are \<open>Parse\<close> and \<open>Execute\<close> of package \<open>text/template\<close>.
\<close>

definition GenerateImage ::
  "(string \<Rightarrow> error + 'tmpl) \<Rightarrow> ('tmpl \<Rightarrow> SproutFile \<Rightarrow> error + string) \<Rightarrow> string
     \<Rightarrow> SproutFile \<Rightarrow> error + string"
where
  "GenerateImage Parse Execute imageNixTemplate sproutFile =
     (case Parse imageNixTemplate of
        Inl err \<Rightarrow> Inl err
      | Inr tmpl \<Rightarrow> Execute tmpl sproutFile)"

text \<open>
  Package \<open>text/template\<close> reads a map of the data in sorted key order: a \<open>range\<close>
  over a map visits the elements in sorted key order, and a map is printed with its
  keys sorted. So what an execution sees of \<open>Networks\<close> is its entries sorted by name
  (\<open>templateData\<close>), and \<open>Execute\<close> of the package is \<open>templateExecute render\<close> for
  some function \<open>render\<close> of the template and that view. Go compares strings byte by
  byte, which is the lexicographic order on \<open>string\<close>.
\<close>

definition templateData :: "SproutFile \<Rightarrow> SproutFile" where
  "templateData sproutFile =
     sproutFile\<lparr>sf_Wireless :=
       (sf_Wireless sproutFile)\<lparr>w_Networks := sort_key fst (w_Networks (sf_Wireless sproutFile))\<rparr>\<rparr>"

definition templateExecute ::
  "('tmpl \<Rightarrow> SproutFile \<Rightarrow> error + string) \<Rightarrow> 'tmpl \<Rightarrow> SproutFile \<Rightarrow> error + string"
where
  "templateExecute render tmpl data = render tmpl (templateData data)"

text \<open>
  Two configurations are equal as Go values when all fields are equal and the two
  \<open>Networks\<close> maps hold the same entries, whatever the order they are held in.
\<close>

definition sameGoMap :: "('k \<times> 'v) list \<Rightarrow> ('k \<times> 'v) list \<Rightarrow> bool" where
  "sameGoMap xs ys = (distinct (map fst xs) \<and> distinct (map fst ys) \<and> set xs = set ys)"

definition equalConfiguration :: "SproutFile \<Rightarrow> SproutFile \<Rightarrow> bool" where
  "equalConfiguration a b =
     (sf_SSHKeys a = sf_SSHKeys b
      \<and> sf_Username a = sf_Username b
      \<and> w_Enabled (sf_Wireless a) = w_Enabled (sf_Wireless b)
      \<and> sameGoMap (w_Networks (sf_Wireless a)) (w_Networks (sf_Wireless b))
      \<and> sf_Output a = sf_Output b
      \<and> sf_DockerCompose a = sf_DockerCompose b
      \<and> sf_Autodiscovery a = sf_Autodiscovery b
      \<and> sf_SproutBinaryPath a = sf_SproutBinaryPath b)"


text \<open>
  Two configurations for the examples that are equal as Go values: the same two
  networks, held in different orders.
\<close>

definition exampleConfigA :: SproutFile where
  "exampleConfigA =
     \<lparr>sf_SSHKeys = [''ssh-ed25519 AAAA''],
      sf_Username = ''sprout'',
      sf_Wireless = \<lparr>w_Enabled = True,
                     w_Networks = [(''home'', \<lparr>nc_PSK = ''secret1''\<rparr>),
                                   (''work'', \<lparr>nc_PSK = ''secret2''\<rparr>)]\<rparr>,
      sf_Output = \<lparr>out_Path = ''build/image.img''\<rparr>,
      sf_DockerCompose = \<lparr>dc_Enabled = False, dc_Path = [], dc_Content = [],
                           dc_ModifiedContent = [], dc_Images = []\<rparr>,
      sf_Autodiscovery = True,
      sf_SproutBinaryPath = []\<rparr>"

definition exampleConfigB :: SproutFile where
  "exampleConfigB =
     exampleConfigA\<lparr>sf_Wireless :=
       \<lparr>w_Enabled = True,
        w_Networks = [(''work'', \<lparr>nc_PSK = ''secret2''\<rparr>),
                      (''home'', \<lparr>nc_PSK = ''secret1''\<rparr>)]\<rparr>\<rparr>"

text \<open>
  A stand-in for the rendering in the examples: the template text followed by the
  network names in the order the view holds them.
\<close>

definition exampleRender :: "string \<Rightarrow> SproutFile \<Rightarrow> error + string" where
  "exampleRender tmpl data =
     Inr (tmpl @ concat (map fst (w_Networks (sf_Wireless data))))"


section \<open>Properties of the image resolver\<close>

lemma extractImages_inv:
  "extractImages services images imageMap = (images', imageMap') \<Longrightarrow>
   \<exists>new. images' = images @ map newDockerImage new \<and> distinct new
      \<and> set new = {n \<in> canonicalRefs services. \<not> imageMap n}"
proof (induction services arbitrary: images imageMap)
  case Nil
  then show ?case by (auto simp: canonicalRefs_def)
next
  case (Cons p rest)
  obtain key service where p: "p = (key, service)" by (cases p)
  let ?n = "imageNameOf service"
  show ?case
  proof (cases "?n \<noteq> [] \<and> \<not> imageMap ?n")
    case True
    with Cons.prems p have
      "extractImages rest (images @ [newDockerImage ?n]) (imageMap(?n := True)) = (images', imageMap')"
      by (simp add: Let_def)
    from Cons.IH [OF this] obtain new where
      n1: "images' = (images @ [newDockerImage ?n]) @ map newDockerImage new"
      and n2: "distinct new"
      and n3: "set new = {m \<in> canonicalRefs rest. \<not> (imageMap(?n := True)) m}"
      by blast
    have "images' = images @ map newDockerImage (?n # new)" using n1 by simp
    moreover have "distinct (?n # new)" using n2 n3 by auto
    moreover have "set (?n # new) = {m \<in> canonicalRefs (p # rest). \<not> imageMap m}"
      using n3 True p by (auto simp: canonicalRefs_def)
    ultimately show ?thesis by blast
  next
    case False
    with Cons.prems p have "extractImages rest images imageMap = (images', imageMap')"
      by (auto simp: Let_def)
    from Cons.IH [OF this] obtain new where
      n1: "images' = images @ map newDockerImage new"
      and n2: "distinct new"
      and n3: "set new = {m \<in> canonicalRefs rest. \<not> imageMap m}"
      by blast
    have "set new = {m \<in> canonicalRefs (p # rest). \<not> imageMap m}"
      using n3 False p by (auto simp: canonicalRefs_def)
    with n1 n2 show ?thesis by blast
  qed
qed

lemma img_Name_newDockerImage: "img_Name (newDockerImage n) = n"
  by (simp add: newDockerImage_def)

lemma img_LocalTag_newDockerImage: "img_LocalTag (newDockerImage n) = localTag n"
  by (simp add: newDockerImage_def)

lemma resolveImages_names:
  "\<exists>new. resolveImages services = map newDockerImage new \<and> distinct new
      \<and> set new = canonicalRefs services"
proof -
  obtain images' imageMap' where e: "extractImages services [] (\<lambda>_. False) = (images', imageMap')"
    by (cases "extractImages services [] (\<lambda>_. False)")
  from extractImages_inv [OF e] obtain new where
    "images' = map newDockerImage new" "distinct new" "set new = canonicalRefs services"
    by auto
  with e show ?thesis by (auto simp: resolveImages_def)
qed

lemma card_canonicalRefs: "card (canonicalRefs services) \<le> length services"
proof -
  have "card (canonicalRefs services) \<le> card (set (map (imageNameOf \<circ> snd) services))"
    unfolding canonicalRefs_def by (rule card_mono) auto
  also have "\<dots> \<le> length (map (imageNameOf \<circ> snd) services)" by (rule card_length)
  finally show ?thesis by simp
qed

lemma safeImageName_idem: "safeImageName (safeImageName s) = safeImageName s"
  by (induction s) (auto simp: safeImageName_def ReplaceAll_def)

lemma localTag_eq_iff: "localTag a = localTag b \<longleftrightarrow> safeImageName a = safeImageName b"
  by (simp add: localTag_def)

text \<open>
  C3, as stated, fails: two services with the distinct image names \<open>my-db:1\<close> and
  \<open>my_db:1\<close> give two entries, and both entries have the local tag
  \<open>embedded/my_db_1\<close>.
\<close>

theorem resolveImages_local_tags_collide:
  "length (resolveImages
      [(''cache'', \<lparr>svc_Name = ''cache'', svc_Image = ''my-db:1'', svc_Build = None\<rparr>),
       (''store'', \<lparr>svc_Name = ''store'', svc_Image = ''my_db:1'', svc_Build = None\<rparr>)]) = 2
   \<and> \<not> distinct (map img_LocalTag (resolveImages
      [(''cache'', \<lparr>svc_Name = ''cache'', svc_Image = ''my-db:1'', svc_Build = None\<rparr>),
       (''store'', \<lparr>svc_Name = ''store'', svc_Image = ''my_db:1'', svc_Build = None\<rparr>)]))"
  by (simp add: Let_def resolveImages_def imageNameOf_def newDockerImage_def localTag_def
      safeImageName_def ReplaceAll_def)

text \<open>
  C3, amended: for \<open>N\<close> services whose image names, declared or synthesized, cover
  \<open>M \<le> N\<close> distinct canonical references, the resolver yields exactly \<open>M\<close> entries,
  one per distinct canonical reference; every entry's local tag is the tag derived
  from its reference, and the local tags are pairwise distinct exactly when no two
  of the references have the same sanitized form.
\<close>

theorem resolveImages_one_per_reference:
  "distinct (map img_Name (resolveImages services))
   \<and> set (map img_Name (resolveImages services)) = canonicalRefs services
   \<and> length (resolveImages services) = card (canonicalRefs services)
   \<and> card (canonicalRefs services) \<le> length services
   \<and> map img_LocalTag (resolveImages services) = map localTag (map img_Name (resolveImages services))
   \<and> (distinct (map img_LocalTag (resolveImages services))
        \<longleftrightarrow> inj_on safeImageName (canonicalRefs services))"
proof -
  obtain new where r: "resolveImages services = map newDockerImage new"
    and d: "distinct new" and s: "set new = canonicalRefs services"
    using resolveImages_names by blast
  have names: "map img_Name (resolveImages services) = new"
    by (simp add: r comp_def img_Name_newDockerImage)
  have tags: "map img_LocalTag (resolveImages services) = map localTag new"
    by (simp add: r comp_def img_LocalTag_newDockerImage)
  have len: "length (resolveImages services) = card (canonicalRefs services)"
    using d s r distinct_card [of new] by simp
  have inj: "distinct (map localTag new) \<longleftrightarrow> inj_on safeImageName (set new)"
    using d by (auto simp: distinct_map inj_on_def localTag_eq_iff)
  show ?thesis
    using names tags d s len inj card_canonicalRefs [of services] by simp
qed

text \<open>
  Witness for C3 amended: three services, two of them sharing the image \<open>redis:7\<close>
  and one built from a context, give two entries with the two distinct local tags.
\<close>

theorem resolveImages_one_per_reference_witness:
  "length (resolveImages
      [(''cache'', \<lparr>svc_Name = ''cache'', svc_Image = ''redis:7'', svc_Build = None\<rparr>),
       (''queue'', \<lparr>svc_Name = ''queue'', svc_Image = ''redis:7'', svc_Build = None\<rparr>),
       (''web'', \<lparr>svc_Name = ''web'', svc_Image = [], svc_Build = Some \<lparr>bc_Context = ''.''\<rparr>\<rparr>)])
     = card (canonicalRefs
      [(''cache'', \<lparr>svc_Name = ''cache'', svc_Image = ''redis:7'', svc_Build = None\<rparr>),
       (''queue'', \<lparr>svc_Name = ''queue'', svc_Image = ''redis:7'', svc_Build = None\<rparr>),
       (''web'', \<lparr>svc_Name = ''web'', svc_Image = [], svc_Build = Some \<lparr>bc_Context = ''.''\<rparr>\<rparr>)])
   \<and> map img_LocalTag (resolveImages
      [(''cache'', \<lparr>svc_Name = ''cache'', svc_Image = ''redis:7'', svc_Build = None\<rparr>),
       (''queue'', \<lparr>svc_Name = ''queue'', svc_Image = ''redis:7'', svc_Build = None\<rparr>),
       (''web'', \<lparr>svc_Name = ''web'', svc_Image = [], svc_Build = Some \<lparr>bc_Context = ''.''\<rparr>\<rparr>)])
     = [''embedded/redis_7'', ''embedded/web_latest'']
   \<and> inj_on safeImageName (canonicalRefs
      [(''cache'', \<lparr>svc_Name = ''cache'', svc_Image = ''redis:7'', svc_Build = None\<rparr>),
       (''queue'', \<lparr>svc_Name = ''queue'', svc_Image = ''redis:7'', svc_Build = None\<rparr>),
       (''web'', \<lparr>svc_Name = ''web'', svc_Image = [], svc_Build = Some \<lparr>bc_Context = ''.''\<rparr>\<rparr>)])"
  using resolveImages_one_per_reference [of
      "[(''cache'', \<lparr>svc_Name = ''cache'', svc_Image = ''redis:7'', svc_Build = None\<rparr>),
       (''queue'', \<lparr>svc_Name = ''queue'', svc_Image = ''redis:7'', svc_Build = None\<rparr>),
       (''web'', \<lparr>svc_Name = ''web'', svc_Image = [], svc_Build = Some \<lparr>bc_Context = ''.''\<rparr>\<rparr>)]"]
  by (simp add: Let_def resolveImages_def imageNameOf_def newDockerImage_def localTag_def
      safeImageName_def ReplaceAll_def)

text \<open>
  C8: the local tag of every entry is a function of its canonical reference alone
  (the fixed prefix followed by the sanitized reference); sanitizing a sanitized name
  changes nothing; and the two distinct references \<open>my-app:1\<close> and \<open>my_app:1\<close> have
  the same sanitized form and therefore the same local tag.
\<close>

theorem localTag_pure_idempotent_collision:
  "map img_LocalTag (resolveImages services) = map localTag (map img_Name (resolveImages services))
   \<and> localTag n = ''embedded/'' @ safeImageName n
   \<and> safeImageName (safeImageName n) = safeImageName n
   \<and> ''my-app:1'' \<noteq> ''my_app:1''
   \<and> safeImageName ''my-app:1'' = safeImageName ''my_app:1''
   \<and> localTag ''my-app:1'' = localTag ''my_app:1''"
proof -
  obtain new where r: "resolveImages services = map newDockerImage new"
    using resolveImages_names by blast
  have "map img_LocalTag (resolveImages services) = map localTag (map img_Name (resolveImages services))"
    by (simp add: r comp_def img_LocalTag_newDockerImage img_Name_newDockerImage)
  moreover have "safeImageName ''my-app:1'' = safeImageName ''my_app:1''"
    by (simp add: safeImageName_def ReplaceAll_def)
  ultimately show ?thesis
    by (simp add: safeImageName_idem localTag_def)
qed


section \<open>Properties of the rewriting pass\<close>

lemma imageMappingOf_fold:
  "fold (\<lambda>img m. m(img_Name img := img_LocalTag img)) (map newDockerImage ns) m0
     = (\<lambda>n. if n \<in> set ns then localTag n else m0 n)"
  by (induction ns arbitrary: m0)
     (auto simp: fun_eq_iff img_Name_newDockerImage img_LocalTag_newDockerImage)

lemma imageMappingOf_resolveImages:
  "imageMappingOf (resolveImages services) n
     = (if n \<in> canonicalRefs services then localTag n else [])"
proof -
  obtain new where r: "resolveImages services = map newDockerImage new"
    and s: "set new = canonicalRefs services"
    using resolveImages_names by blast
  show ?thesis by (simp add: imageMappingOf_def r imageMappingOf_fold s)
qed

text \<open>
  A service that declares an image gets the resolved local tag of that image; its
  build context, when it has one, stays.
\<close>

lemma rewriteService_declared_image:
  assumes "(key, service) \<in> set services" and "svc_Image service \<noteq> []"
  shows "rewriteService (imageMappingOf (resolveImages services)) key service
           = service\<lparr>svc_Image := localTag (imageNameOf service)\<rparr>"
proof -
  have "svc_Image service \<in> canonicalRefs services"
    using assms by (force simp: canonicalRefs_def imageNameOf_def)
  then show ?thesis
    using assms(2)
    by (simp add: rewriteService_def imageMappingOf_resolveImages imageNameOf_def localTag_def)
qed

lemma safeImageName_unchanged:
  "CHR ''/'' \<notin> set s \<Longrightarrow> CHR '':'' \<notin> set s \<Longrightarrow> CHR ''-'' \<notin> set s \<Longrightarrow> safeImageName s = s"
  by (induction s) (auto simp: safeImageName_def ReplaceAll_def)

lemma safeImageName_append: "safeImageName (a @ b) = safeImageName a @ safeImageName b"
  by (simp add: safeImageName_def ReplaceAll_def)

text \<open>
  A service with a build context and no image gets the resolved local tag when its
  name holds none of the characters that sanitizing replaces.
\<close>

lemma rewriteService_build_only_plain_name:
  assumes "svc_Image service = []" and "svc_Build service \<noteq> None"
    and "svc_Name service = key"
    and "CHR ''/'' \<notin> set key" and "CHR '':'' \<notin> set key" and "CHR ''-'' \<notin> set key"
  shows "rewriteService imageMapping key service
           = service\<lparr>svc_Image := localTag (imageNameOf service), svc_Build := None\<rparr>"
proof -
  have "safeImageName (key @ '':latest'') = key @ ''_latest''"
    using assms(4-6) by (simp add: safeImageName_append safeImageName_unchanged)
       (simp add: safeImageName_def ReplaceAll_def)
  then show ?thesis
    using assms(1-3) by (simp add: rewriteService_def imageNameOf_def localTag_def)
qed

text \<open>
  C2 at the service \<open>my-app\<close>, which has a build context and no image: the resolver
  tags and exports the image as \<open>embedded/my_app_latest\<close>, and the rewriting pass
  sets the service's image field to \<open>embedded/my-app_latest\<close>, a tag that no resolved
  image has. At the service \<open>db\<close>, which declares an image and a build context, the
  rewritten service keeps its build context.
\<close>

theorem modifyServices_unsanitized_tag:
  "map img_LocalTag (resolveImages
      [(''my-app'', \<lparr>svc_Name = ''my-app'', svc_Image = [], svc_Build = Some \<lparr>bc_Context = ''.''\<rparr>\<rparr>),
       (''db'', \<lparr>svc_Name = ''db'', svc_Image = ''redis:7'', svc_Build = Some \<lparr>bc_Context = ''db''\<rparr>\<rparr>)])
     = [''embedded/my_app_latest'', ''embedded/redis_7'']
   \<and> map snd (modifyServices
        (resolveImages
          [(''my-app'', \<lparr>svc_Name = ''my-app'', svc_Image = [], svc_Build = Some \<lparr>bc_Context = ''.''\<rparr>\<rparr>),
           (''db'', \<lparr>svc_Name = ''db'', svc_Image = ''redis:7'', svc_Build = Some \<lparr>bc_Context = ''db''\<rparr>\<rparr>)])
        [(''my-app'', \<lparr>svc_Name = ''my-app'', svc_Image = [], svc_Build = Some \<lparr>bc_Context = ''.''\<rparr>\<rparr>),
         (''db'', \<lparr>svc_Name = ''db'', svc_Image = ''redis:7'', svc_Build = Some \<lparr>bc_Context = ''db''\<rparr>\<rparr>)])
     = [\<lparr>svc_Name = ''my-app'', svc_Image = ''embedded/my-app_latest'', svc_Build = None\<rparr>,
        \<lparr>svc_Name = ''db'', svc_Image = ''embedded/redis_7'', svc_Build = Some \<lparr>bc_Context = ''db''\<rparr>\<rparr>]"
  by (simp add: Let_def resolveImages_def imageNameOf_def newDockerImage_def localTag_def
      safeImageName_def ReplaceAll_def modifyServices_def rewriteService_def imageMappingOf_def)


section \<open>Properties of the artifact locator\<close>

lemma Ext_img_suffix: "suffix ''.img'' path \<Longrightarrow> Ext path = ''.img''"
  by (auto simp: suffix_def Ext_def)

lemma Join_k2_result: "Join [''/nix/store/k2-sprout-docker-image'', ''result.img'']
    = ''/nix/store/k2-sprout-docker-image/result.img''"
  by (simp add: Join_def Clean_def)

lemma Join_k2_sd: "Join [''/nix/store/k2-sprout-docker-image'', ''sd-image'']
    = ''/nix/store/k2-sprout-docker-image/sd-image''"
  by (simp add: Join_def Clean_def)

lemma Join_k2_sd_img: "Join [''/nix/store/k2-sprout-docker-image/sd-image'', ''nixos.img'']
    = ''/nix/store/k2-sprout-docker-image/sd-image/nixos.img''"
  by (simp add: Join_def Clean_def)

lemma Join_q1_result: "Join [''/nix/store/q1-nixos-image'', ''result.img'']
    = ''/nix/store/q1-nixos-image/result.img''"
  by (simp add: Join_def Clean_def)

lemma Join_q1_sd: "Join [''/nix/store/q1-nixos-image'', ''sd-image'']
    = ''/nix/store/q1-nixos-image/sd-image''"
  by (simp add: Join_def Clean_def)

lemma Join_m3_sd: "Join [''/nix/store/m3-nixos-sd'', ''sd-image'']
    = ''/nix/store/m3-nixos-sd/sd-image''"
  by (simp add: Join_def Clean_def)

lemma Join_m3_sd_img: "Join [''/nix/store/m3-nixos-sd/sd-image'', ''nixos.img'']
    = ''/nix/store/m3-nixos-sd/sd-image/nixos.img''"
  by (simp add: Join_def Clean_def)

lemmas Join_examples =
  Join_k2_result Join_k2_sd Join_k2_sd_img Join_q1_result Join_q1_sd Join_m3_sd Join_m3_sd_img

lemma find_filter_single:
  "length (filter P xs) \<le> 1 \<Longrightarrow>
   (case filter P xs of [x] \<Rightarrow> f x | _ \<Rightarrow> d) = (case find P xs of Some x \<Rightarrow> f x | None \<Rightarrow> d)"
  by (induction xs) (auto split: list.splits option.splits simp: find_None_iff filter_empty_conv)

text \<open>
  C1, as stated, fails. The directory \<open>/nix/store/k2-sprout-docker-image\<close>, taken as
  the result of the Local backend, holds \<open>sd-image/nixos.img\<close>, which is what the
  strategy for Local results finds; \<open>FindImageFile\<close> reads the marker in the path,
  looks for \<open>result.img\<close> and fails. The directory \<open>/nix/store/q1-nixos-image\<close>, taken
  as the result of the Containerized backend, holds \<open>result.img\<close>; \<open>FindImageFile\<close>
  finds no marker in the path, looks for the \<open>sd-image\<close> subdirectory and fails.
\<close>

theorem FindImageFile_ignores_backend_kind:
  "FindImageFile exampleFs ''/nix/store/k2-sprout-docker-image''
     = ([OpStat ''/nix/store/k2-sprout-docker-image'',
         OpStat ''/nix/store/k2-sprout-docker-image/result.img''],
        Inl (DockerImageNotFound ''/nix/store/k2-sprout-docker-image/result.img''))
   \<and> locate_spec Local exampleFs ''/nix/store/k2-sprout-docker-image''
     = Inr ''/nix/store/k2-sprout-docker-image/sd-image/nixos.img''
   \<and> snd (FindImageFile exampleFs ''/nix/store/k2-sprout-docker-image'')
     \<noteq> locate_spec Local exampleFs ''/nix/store/k2-sprout-docker-image''
   \<and> FindImageFile exampleFs ''/nix/store/q1-nixos-image''
     = ([OpStat ''/nix/store/q1-nixos-image'', OpStat ''/nix/store/q1-nixos-image/sd-image''],
        Inl (ImageFileNotFound ''/nix/store/q1-nixos-image''))
   \<and> locate_spec Containerized exampleFs ''/nix/store/q1-nixos-image''
     = Inr ''/nix/store/q1-nixos-image/result.img''
   \<and> snd (FindImageFile exampleFs ''/nix/store/q1-nixos-image'')
     \<noteq> locate_spec Containerized exampleFs ''/nix/store/q1-nixos-image''"
  by (simp add: FindImageFile_def locate_spec_def exampleFs_def Ext_def Base_def
      Join_examples isImgEntry_def Let_def)

text \<open>
  C1, amended: \<open>FindImageFile\<close> is given the path only and chooses its strategy by
  the text of the path. When the path contains \<open>sprout-docker-\<close> it does what the
  specification says for a Containerized result: it looks for \<open>result.img\<close> inside
  the path, or accepts the path if it already names that file. Otherwise it does
  what the specification says for a Local result whenever the \<open>sd-image\<close>
  subdirectory holds at most one image file, and in general returns the first entry
  of that subdirectory, in directory order, that is not a directory and has the
  extension \<open>.img\<close>.
\<close>

theorem FindImageFile_dispatches_on_path_text:
  "(Contains basePath ''sprout-docker-'' \<longrightarrow>
      snd (FindImageFile fs basePath) = locate_spec Containerized fs basePath)
   \<and> (\<not> Contains basePath ''sprout-docker-'' \<longrightarrow>
        (\<forall>entries. ReadDir fs (Join [basePath, ''sd-image'']) = Inr entries
            \<longrightarrow> length (filter isImgEntry entries) \<le> 1) \<longrightarrow>
      snd (FindImageFile fs basePath) = locate_spec Local fs basePath)
   \<and> (\<not> Contains basePath ''sprout-docker-'' \<longrightarrow>
        Stat fs basePath = Inr fileInfo \<longrightarrow> \<not> (\<not> fi_IsDir fileInfo \<and> Ext basePath = ''.img'') \<longrightarrow>
        Stat fs (Join [basePath, ''sd-image'']) \<noteq> Inl ErrNotExist \<longrightarrow>
        ReadDir fs (Join [basePath, ''sd-image'']) = Inr entries \<longrightarrow>
      snd (FindImageFile fs basePath) =
        (case find isImgEntry entries of
           Some entry \<Rightarrow> Inr (Join [Join [basePath, ''sd-image''], de_Name entry])
         | None \<Rightarrow> Inl NoImgFileFound))"
proof (intro conjI impI)
  assume "Contains basePath ''sprout-docker-''"
  then show "snd (FindImageFile fs basePath) = locate_spec Containerized fs basePath"
    by (simp add: FindImageFile_def locate_spec_def Let_def split: sum.splits)
next
  assume c: "\<not> Contains basePath ''sprout-docker-''"
    and one: "\<forall>entries. ReadDir fs (Join [basePath, ''sd-image'']) = Inr entries
            \<longrightarrow> length (filter isImgEntry entries) \<le> 1"
  show "snd (FindImageFile fs basePath) = locate_spec Local fs basePath"
  proof (cases "ReadDir fs (Join [basePath, ''sd-image''])")
    case (Inl err)
    with c show ?thesis
      by (simp add: FindImageFile_def locate_spec_def Let_def split: sum.splits)
  next
    case (Inr entries)
    with one have "length (filter isImgEntry entries) \<le> 1" by simp
    then have h: "(case filter isImgEntry entries of
               [entry] \<Rightarrow> Inr (Join [Join [basePath, ''sd-image''], de_Name entry])
             | _ \<Rightarrow> Inl NoImgFileFound)
          = (case find isImgEntry entries of
               Some entry \<Rightarrow> Inr (Join [Join [basePath, ''sd-image''], de_Name entry])
             | None \<Rightarrow> (Inl NoImgFileFound :: error + string))"
      by (rule find_filter_single)
    show ?thesis
    proof (cases "Stat fs basePath")
      case (Inl e)
      then show ?thesis by (simp add: FindImageFile_def locate_spec_def)
    next
      case (Inr fileInfo)
      with c h \<open>ReadDir fs (Join [basePath, ''sd-image'']) = Inr entries\<close> show ?thesis
        by (simp add: FindImageFile_def locate_spec_def Let_def split: option.splits)
    qed
  qed
next
  assume "\<not> Contains basePath ''sprout-docker-''" "Stat fs basePath = Inr fileInfo"
    "\<not> (\<not> fi_IsDir fileInfo \<and> Ext basePath = ''.img'')"
    "Stat fs (Join [basePath, ''sd-image'']) \<noteq> Inl ErrNotExist"
    "ReadDir fs (Join [basePath, ''sd-image'']) = Inr entries"
  then show "snd (FindImageFile fs basePath) =
        (case find isImgEntry entries of
           Some entry \<Rightarrow> Inr (Join [Join [basePath, ''sd-image''], de_Name entry])
         | None \<Rightarrow> Inl NoImgFileFound)"
    by (auto simp add: FindImageFile_def Let_def split: sum.splits option.splits)
qed

text \<open>
  Witness for C1 amended: the path with the marker is handled as a Containerized
  result; the path without the marker is handled as a Local result, and the first
  entry of \<open>sd-image\<close> that is an image file, \<open>nixos.img\<close>, is returned.
\<close>

theorem FindImageFile_dispatches_on_path_text_witness:
  "Contains ''/nix/store/k2-sprout-docker-image'' ''sprout-docker-''
   \<and> snd (FindImageFile exampleFs ''/nix/store/k2-sprout-docker-image'')
       = locate_spec Containerized exampleFs ''/nix/store/k2-sprout-docker-image''
   \<and> \<not> Contains ''/nix/store/m3-nixos-sd'' ''sprout-docker-''
   \<and> Stat exampleFs ''/nix/store/m3-nixos-sd'' = Inr \<lparr>fi_IsDir = True\<rparr>
   \<and> Stat exampleFs (Join [''/nix/store/m3-nixos-sd'', ''sd-image'']) \<noteq> Inl ErrNotExist
   \<and> ReadDir exampleFs (Join [''/nix/store/m3-nixos-sd'', ''sd-image''])
       = Inr [\<lparr>de_Name = ''boot.img'', de_IsDir = True\<rparr>, \<lparr>de_Name = ''nixos.img'', de_IsDir = False\<rparr>]
   \<and> length (filter isImgEntry
        [\<lparr>de_Name = ''boot.img'', de_IsDir = True\<rparr>, \<lparr>de_Name = ''nixos.img'', de_IsDir = False\<rparr>]) \<le> 1
   \<and> snd (FindImageFile exampleFs ''/nix/store/m3-nixos-sd'')
       = locate_spec Local exampleFs ''/nix/store/m3-nixos-sd''
   \<and> snd (FindImageFile exampleFs ''/nix/store/m3-nixos-sd'')
       = Inr ''/nix/store/m3-nixos-sd/sd-image/nixos.img''"
proof -
  let ?es = "[\<lparr>de_Name = ''boot.img'', de_IsDir = True\<rparr>, \<lparr>de_Name = ''nixos.img'', de_IsDir = False\<rparr>]"
  have c1: "Contains ''/nix/store/k2-sprout-docker-image'' ''sprout-docker-''" by simp
  have c2: "\<not> Contains ''/nix/store/m3-nixos-sd'' ''sprout-docker-''" by simp
  have s1: "Stat exampleFs ''/nix/store/m3-nixos-sd'' = Inr \<lparr>fi_IsDir = True\<rparr>"
    by (simp add: exampleFs_def)
  have s2: "Stat exampleFs (Join [''/nix/store/m3-nixos-sd'', ''sd-image'']) \<noteq> Inl ErrNotExist"
    by (simp add: exampleFs_def Join_m3_sd)
  have r: "ReadDir exampleFs (Join [''/nix/store/m3-nixos-sd'', ''sd-image'']) = Inr ?es"
    by (simp add: exampleFs_def Join_m3_sd)
  have f: "find isImgEntry ?es = Some \<lparr>de_Name = ''nixos.img'', de_IsDir = False\<rparr>"
    by (simp add: isImgEntry_def Ext_def)
  have l: "length (filter isImgEntry ?es) \<le> 1"
    by (simp add: isImgEntry_def Ext_def)
  have j: "Join [Join [''/nix/store/m3-nixos-sd'', ''sd-image''], ''nixos.img'']
             = ''/nix/store/m3-nixos-sd/sd-image/nixos.img''"
    by (simp add: Join_m3_sd Join_m3_sd_img)
  have all: "\<forall>entries. ReadDir exampleFs (Join [''/nix/store/m3-nixos-sd'', ''sd-image'']) = Inr entries
            \<longrightarrow> length (filter isImgEntry entries) \<le> 1"
    using r l by simp
  from FindImageFile_dispatches_on_path_text
          [of "''/nix/store/k2-sprout-docker-image''" exampleFs "\<lparr>fi_IsDir = True\<rparr>" "[]"] c1
  have k: "snd (FindImageFile exampleFs ''/nix/store/k2-sprout-docker-image'')
       = locate_spec Containerized exampleFs ''/nix/store/k2-sprout-docker-image''"
    by blast
  have n: "\<not> (\<not> fi_IsDir \<lparr>fi_IsDir = True\<rparr> \<and> Ext ''/nix/store/m3-nixos-sd'' = ''.img'')"
    by simp
  note T = FindImageFile_dispatches_on_path_text
          [of "''/nix/store/m3-nixos-sd''" exampleFs "\<lparr>fi_IsDir = True\<rparr>" ?es]
  have m: "snd (FindImageFile exampleFs ''/nix/store/m3-nixos-sd'')
       = locate_spec Local exampleFs ''/nix/store/m3-nixos-sd''"
    using T c2 all by blast
  have m': "snd (FindImageFile exampleFs ''/nix/store/m3-nixos-sd'')
       = (case find isImgEntry ?es of
           Some entry \<Rightarrow> Inr (Join [Join [''/nix/store/m3-nixos-sd'', ''sd-image''], de_Name entry])
         | None \<Rightarrow> Inl NoImgFileFound)"
    using T c2 s1 s2 r n by blast
  from m' have m'': "snd (FindImageFile exampleFs ''/nix/store/m3-nixos-sd'')
       = Inr ''/nix/store/m3-nixos-sd/sd-image/nixos.img''"
    by (simp only: f option.case j DirEntry.select_convs)
  from c1 c2 s1 s2 r l k m m'' show ?thesis by blast
qed

text \<open>
  C9: for a path that names an existing regular file and ends in \<open>.img\<close>,
  \<open>FindImageFile\<close> returns the path unchanged, and the only file-system call it
  makes is the \<open>Stat\<close> of that path: no directory is read and no other path is
  looked up.
\<close>

theorem FindImageFile_img_file_unchanged:
  assumes "Stat fs basePath = Inr fileInfo" and "\<not> fi_IsDir fileInfo"
    and "suffix ''.img'' basePath"
  shows "FindImageFile fs basePath = ([OpStat basePath], Inr basePath)"
  using assms by (simp add: FindImageFile_def Ext_img_suffix)

text \<open>Witness for C9: the plain image file of the example file system.\<close>

theorem FindImageFile_img_file_unchanged_witness:
  "Stat exampleFs ''/home/u/build/image.img'' = Inr \<lparr>fi_IsDir = False\<rparr>
   \<and> \<not> fi_IsDir \<lparr>fi_IsDir = False\<rparr>
   \<and> suffix ''.img'' ''/home/u/build/image.img''
   \<and> FindImageFile exampleFs ''/home/u/build/image.img''
        = ([OpStat ''/home/u/build/image.img''], Inr ''/home/u/build/image.img'')"
proof -
  have s: "Stat exampleFs ''/home/u/build/image.img'' = Inr \<lparr>fi_IsDir = False\<rparr>"
    by (simp add: exampleFs_def)
  have d: "\<not> fi_IsDir \<lparr>fi_IsDir = False\<rparr>" by simp
  have x: "suffix ''.img'' ''/home/u/build/image.img''"
    by (simp add: suffix_to_prefix)
  from FindImageFile_img_file_unchanged [OF s d x] s d x show ?thesis by simp
qed



section \<open>Properties of the log demultiplexer\<close>






lemma scanLines_Nil: "scanLines [] = []"
  by (simp add: scanLines.simps)


lemma scanLines_last:
  assumes "newline \<notin> set l" and "length l < MaxScanTokenSize" and "l \<noteq> []"
  shows "scanLines l = [dropCR l]"
  using assms by (subst scanLines.simps) simp


lemma set_dropCR: "set (dropCR l) \<subseteq> set l"
  by (auto simp: dropCR_def dest: in_set_butlastD)


lemma scanLines_no_newline: "l \<in> set (scanLines data) \<Longrightarrow> newline \<notin> set l"
proof (induction data arbitrary: l rule: scanLines.induct)
  case (1 data)
  show ?case
  proof (cases "data = []")
    case True
    with 1 show ?thesis by (simp add: scanLines.simps)
  next
    case ne: False
    show ?thesis
    proof (cases "newline \<in> set data")
      case True
      let ?t = "takeWhile (\<lambda>c. c \<noteq> newline) data"
      let ?d = "dropWhile (\<lambda>c. c \<noteq> newline) data"
      show ?thesis
      proof (cases "length ?t < MaxScanTokenSize")
        case lt: True
        from "1.prems" ne True lt have "l = dropCR ?t \<or> l \<in> set (scanLines (tl ?d))"
          by (subst (asm) scanLines.simps) simp
        then show ?thesis
        proof
          assume "l = dropCR ?t"
          then have "set l \<subseteq> set ?t" using set_dropCR by simp
          moreover have "newline \<notin> set ?t" by (auto dest: set_takeWhileD)
          ultimately show ?thesis by auto
        next
          assume "l \<in> set (scanLines (tl ?d))"
          from "1.IH" [OF ne True lt this] show ?thesis .
        qed
      next
        case False
        with "1.prems" ne True show ?thesis by (subst (asm) scanLines.simps) simp
      qed
    next
      case False
      with "1.prems" ne have "l = dropCR data"
        by (subst (asm) scanLines.simps) (simp split: if_splits)
      then show ?thesis using set_dropCR False by auto
    qed
  qed
qed












section \<open>Properties of the store path extraction\<close>




lemma writeLines_Cons: "writeLines (l # ls) = l @ newline # writeLines ls"
  by (simp add: writeLines_def)


lemma writeLines_append: "writeLines (xs @ ys) = writeLines xs @ writeLines ys"
  by (simp add: writeLines_def)





lemma hd_writeLines:
  "ls \<noteq> [] \<Longrightarrow> hd ls \<noteq> [] \<Longrightarrow> hd (writeLines ls @ l) = hd (hd ls)"
  by (cases ls) (simp_all add: writeLines_def)











section \<open>The accumulation buffer\<close>

text \<open>
  Whatever the stream, the buffer that \<open>processDockerLogs\<close> leaves behind is a
  sequence of accumulated lines, each followed by a line feed: the shape that the
  statement about \<open>extractNixStorePath\<close> asks of its input.
\<close>

lemma set_TrimSpace: "set (TrimSpace s) \<subseteq> set s"
proof -
  have "set (TrimSpace s) = set (dropWhile isSpace (rev (dropWhile isSpace s)))"
    by (simp add: TrimSpace_def)
  also have "\<dots> \<subseteq> set (rev (dropWhile isSpace s))"
    by (auto dest: set_dropWhileD)
  also have "\<dots> \<subseteq> set s"
    by (auto dest: set_dropWhileD)
  finally show ?thesis .
qed

lemma hd_dropWhile_not: "dropWhile P xs \<noteq> [] \<Longrightarrow> \<not> P (hd (dropWhile P xs))"
  by (induction xs) auto

lemma last_dropWhile: "dropWhile P xs \<noteq> [] \<Longrightarrow> last (dropWhile P xs) = last xs"
  by (induction xs) (auto split: if_splits)

lemma TrimSpace_ends:
  assumes "TrimSpace s \<noteq> []"
  shows "\<not> isSpace (hd (TrimSpace s))" and "\<not> isSpace (last (TrimSpace s))"
proof -
  let ?y = "dropWhile isSpace s"
  let ?z = "dropWhile isSpace (rev ?y)"
  have z: "?z \<noteq> []" using assms by (simp add: TrimSpace_def)
  have y: "?y \<noteq> []"
  proof
    assume "?y = []"
    then have "?z = []" by (simp only: rev.simps dropWhile.simps)
    with z show False by simp
  qed
  have "last (TrimSpace s) = hd ?z"
    using z by (simp add: TrimSpace_def last_rev)
  then show "\<not> isSpace (last (TrimSpace s))"
    using hd_dropWhile_not [OF z] by simp
  have "hd (TrimSpace s) = last ?z"
    using z by (simp add: TrimSpace_def hd_rev)
  also have "\<dots> = last (rev ?y)" by (rule last_dropWhile [OF z])
  also have "\<dots> = hd ?y" using y by (simp add: last_rev)
  finally show "\<not> isSpace (hd (TrimSpace s))"
    using hd_dropWhile_not [OF y] by simp
qed

lemma payloadLines_accumulated:
  assumes "l \<in> set (payloadLines payload)"
  shows "accumulatedLine l"
proof -
  from assms obtain x where x: "x \<in> set (scanLines payload)" and l: "l = TrimSpace x" and ne: "l \<noteq> []"
    by (auto simp: payloadLines_def)
  have "newline \<notin> set x" by (rule scanLines_no_newline [OF x])
  then have "newline \<notin> set l" using set_TrimSpace [of x] l by auto
  then show ?thesis
    using ne TrimSpace_ends [of x] l by (simp add: accumulatedLine_def)
qed

lemma processDockerLogs_accumulates:
  "\<exists>lines. processDockerLogs logs (writeLines lines0) = writeLines (lines0 @ lines)
      \<and> (\<forall>l \<in> set lines. accumulatedLine l)"
proof (induction logs "writeLines lines0" arbitrary: lines0 rule: processDockerLogs.induct)
  case (1 logs)
  let ?n = "nat (payloadSize (take 8 logs))"
  show ?case
  proof (cases "length logs < 8")
    case True
    then have "processDockerLogs logs (writeLines lines0) = writeLines (lines0 @ [])"
      by (simp add: processDockerLogs.simps)
    then show ?thesis by (intro exI [of _ "[]"]) simp
  next
    case long: False
    show ?thesis
    proof (cases "payloadSize (take 8 logs) \<le> 0")
      case True
      from "1.hyps"(1) [OF long True refl] obtain lines where
        "processDockerLogs (drop 8 logs) (writeLines lines0) = writeLines (lines0 @ lines)"
        "\<forall>l \<in> set lines. accumulatedLine l" by blast
      moreover have "processDockerLogs logs (writeLines lines0)
                       = processDockerLogs (drop 8 logs) (writeLines lines0)"
        using long True by (subst processDockerLogs.simps) simp
      ultimately show ?thesis by auto
    next
      case pos: False
      show ?thesis
      proof (cases "length (drop 8 logs) < ?n")
        case True
        then have "processDockerLogs logs (writeLines lines0) = writeLines (lines0 @ [])"
          using long pos by (subst processDockerLogs.simps) simp
        then show ?thesis by (intro exI [of _ "[]"]) simp
      next
        case False
        let ?new = "payloadLines (take ?n (drop 8 logs))"
        have w: "writeLines lines0 @ writeLines ?new = writeLines (lines0 @ ?new)"
          by (simp add: writeLines_append)
        from "1.hyps"(2) [OF long pos False w] obtain lines where
          r: "processDockerLogs (drop ?n (drop 8 logs)) (writeLines (lines0 @ ?new))
                = writeLines ((lines0 @ ?new) @ lines)"
          and a: "\<forall>l \<in> set lines. accumulatedLine l" by blast
        have "processDockerLogs logs (writeLines lines0)
                = processDockerLogs (drop ?n (drop 8 logs)) (writeLines lines0 @ writeLines ?new)"
          using long pos False by (subst processDockerLogs.simps) simp
        with r w have "processDockerLogs logs (writeLines lines0) = writeLines (lines0 @ (?new @ lines))"
          by simp
        moreover have "\<forall>l \<in> set (?new @ lines). accumulatedLine l"
          using a payloadLines_accumulated by auto
        ultimately show ?thesis by blast
      qed
    qed
  qed
qed

lemma processDockerLogs_output_shape:
  "\<exists>lines. processDockerLogs logs [] = writeLines lines \<and> (\<forall>l \<in> set lines. accumulatedLine l)"
  using processDockerLogs_accumulates [of logs "[]"] by (simp add: writeLines_def)




section \<open>Properties of the backend selector\<close>

lemma Getenv_empty_iff:
  "Getenv env key = [] \<longleftrightarrow> (env_vars env key = None \<or> env_vars env key = Some [])"
  by (simp add: Getenv_def split: option.splits)

text \<open>
  C5: when the variable \<open>SPROUT_DISABLE_LOCAL_NIX\<close> is set to a non-empty value,
  \<open>Build\<close> runs the Containerized backend, whatever the search path holds;
  otherwise, when \<open>nix-build\<close> resolves on the search path, it runs the Local
  backend with the resolved path; otherwise it runs the Containerized backend.
\<close>

theorem Build_decision_order:
  "(env_vars env ''SPROUT_DISABLE_LOCAL_NIX'' = Some v \<longrightarrow> v \<noteq> [] \<longrightarrow>
      Build env buildLocal buildWithDocker filename sproutFile = buildWithDocker filename sproutFile
      \<and> selectedBackend env = Containerized)
   \<and> (Getenv env ''SPROUT_DISABLE_LOCAL_NIX'' = [] \<longrightarrow>
        env_LookPath env ''nix-build'' = Inr nixPath \<longrightarrow>
      Build env buildLocal buildWithDocker filename sproutFile = buildLocal nixPath filename sproutFile
      \<and> selectedBackend env = Local)
   \<and> (Getenv env ''SPROUT_DISABLE_LOCAL_NIX'' = [] \<longrightarrow>
        env_LookPath env ''nix-build'' = Inl err \<longrightarrow>
      Build env buildLocal buildWithDocker filename sproutFile = buildWithDocker filename sproutFile
      \<and> selectedBackend env = Containerized)"
  by (simp add: Build_def selectedBackend_def Getenv_def)

text \<open>
  Witness for C5: with the variable set and \<open>nix-build\<close> present the choice is
  Containerized; with the variable unset it is Local when \<open>nix-build\<close> is present
  and Containerized when it is not.
\<close>

theorem Build_decision_order_witness:
  "env_vars exampleEnvDisabled ''SPROUT_DISABLE_LOCAL_NIX'' = Some ''1'' \<and> ''1'' \<noteq> []
   \<and> env_LookPath exampleEnvDisabled ''nix-build'' = Inr ''/usr/bin/nix-build''
   \<and> selectedBackend exampleEnvDisabled = Containerized
   \<and> Getenv exampleEnvLocal ''SPROUT_DISABLE_LOCAL_NIX'' = []
   \<and> env_LookPath exampleEnvLocal ''nix-build'' = Inr ''/usr/bin/nix-build''
   \<and> selectedBackend exampleEnvLocal = Local
   \<and> Getenv exampleEnvNoNix ''SPROUT_DISABLE_LOCAL_NIX'' = []
   \<and> env_LookPath exampleEnvNoNix ''nix-build'' = Inl LookPathFailed
   \<and> selectedBackend exampleEnvNoNix = Containerized"
proof -
  have d1: "env_vars exampleEnvDisabled ''SPROUT_DISABLE_LOCAL_NIX'' = Some ''1''"
    and d2: "''1'' \<noteq> ([] :: string)"
    and d3: "env_LookPath exampleEnvDisabled ''nix-build'' = Inr ''/usr/bin/nix-build''"
    by (simp_all add: exampleEnvDisabled_def)
  have l1: "Getenv exampleEnvLocal ''SPROUT_DISABLE_LOCAL_NIX'' = []"
    and l2: "env_LookPath exampleEnvLocal ''nix-build'' = Inr ''/usr/bin/nix-build''"
    by (simp_all add: exampleEnvLocal_def Getenv_def)
  have n1: "Getenv exampleEnvNoNix ''SPROUT_DISABLE_LOCAL_NIX'' = []"
    and n2: "env_LookPath exampleEnvNoNix ''nix-build'' = Inl LookPathFailed"
    by (simp_all add: exampleEnvNoNix_def Getenv_def)
  have r1: "selectedBackend exampleEnvDisabled = Containerized"
    using Build_decision_order
      [where env = exampleEnvDisabled and v = "''1''"
         and buildLocal = "\<lambda>nixPath filename sproutFile. Local"
         and buildWithDocker = "\<lambda>filename sproutFile. Containerized"
         and filename = "[]" and sproutFile = "()"] d1 d2
    by simp
  have r2: "selectedBackend exampleEnvLocal = Local"
    using Build_decision_order
      [where env = exampleEnvLocal and nixPath = "''/usr/bin/nix-build''"
         and buildLocal = "\<lambda>nixPath filename sproutFile. Local"
         and buildWithDocker = "\<lambda>filename sproutFile. Containerized"
         and filename = "[]" and sproutFile = "()"] l1 l2
    by simp
  have r3: "selectedBackend exampleEnvNoNix = Containerized"
    using Build_decision_order
      [where env = exampleEnvNoNix and err = LookPathFailed
         and buildLocal = "\<lambda>nixPath filename sproutFile. Local"
         and buildWithDocker = "\<lambda>filename sproutFile. Containerized"
         and filename = "[]" and sproutFile = "()"] n1 n2
    by simp
  show ?thesis
    by (simp only: d1 d3 l1 l2 n1 n2 r1 r2 r3) simp
qed


section \<open>Properties of the image embedder\<close>

lemma buildOrPullImage_local:
  assumes "HasSuffix (img_Name img) '':latest''" and "\<not> Contains (img_Name img) ''/''"
  shows "buildOrPullImage world img workingDir =
           ([ComposeBuild (TrimSuffix (img_Name img) '':latest'') workingDir],
            if composeBuildOk world (TrimSuffix (img_Name img) '':latest'') workingDir then None
            else Some (BuildServiceFailed (TrimSuffix (img_Name img) '':latest'')))"
  using assms by (simp add: buildOrPullImage_def buildLocalImage_def Let_def)

lemma buildOrPullImage_pull:
  assumes "\<not> (HasSuffix (img_Name img) '':latest'' \<and> \<not> Contains (img_Name img) ''/'')"
  shows "buildOrPullImage world img workingDir =
           (if imagePullOk world (img_Name img) ''linux/arm64''
            then [ImagePull (img_Name img) ''linux/arm64'']
            else [ImagePull (img_Name img) ''linux/arm64'', ImagePull (img_Name img) []],
            None)"
  using assms by (auto simp add: buildOrPullImage_def pullImage_def pullDefaultImage_def)

lemma opAllowed_mono: "opAllowed images op \<Longrightarrow> opAllowed (img # images) op"
  by (auto simp: opAllowed_def split: docker_op.splits)

lemma buildOrPullImage_allowed:
  "op \<in> set (fst (buildOrPullImage world img workingDir)) \<Longrightarrow> opAllowed (img # images) op"
  by (cases "HasSuffix (img_Name img) '':latest'' \<and> \<not> Contains (img_Name img) ''/''")
     (auto simp: buildOrPullImage_local buildOrPullImage_pull opAllowed_def localBuildShape_def
           split: if_splits)

lemma tagAndSaveImage_allowed:
  "op \<in> set (fst (tagAndSaveImage world img)) \<Longrightarrow> opAllowed images' op"
  by (auto simp: tagAndSaveImage_def saveImageToFile_def opAllowed_def split: if_splits)

lemma buildAndSaveLoop_allowed:
  "op \<in> set (fst (buildAndSaveLoop world images workingDir)) \<Longrightarrow> opAllowed images op"
proof (induction images)
  case Nil
  then show ?case by simp
next
  case (Cons img images)
  obtain ops1 r1 where b: "buildOrPullImage world img workingDir = (ops1, r1)" by force
  obtain ops2 r2 where t: "tagAndSaveImage world img = (ops2, r2)" by force
  obtain ops3 r3 where l: "buildAndSaveLoop world images workingDir = (ops3, r3)" by force
  from Cons.prems b t l have "op \<in> set ops1 \<or> op \<in> set ops2 \<or> op \<in> set ops3"
    by (auto split: option.splits)
  then show ?case
  proof (elim disjE)
    assume "op \<in> set ops1"
    then show ?thesis using buildOrPullImage_allowed [of op world img workingDir images] b by simp
  next
    assume "op \<in> set ops2"
    then show ?thesis using tagAndSaveImage_allowed [of op world img] t by simp
  next
    assume "op \<in> set ops3"
    then show ?thesis using Cons.IH l by (simp add: opAllowed_mono)
  qed
qed

lemma buildAndSaveDockerImages_allowed:
  "op \<in> set (fst (buildAndSaveDockerImages world images workingDir)) \<Longrightarrow> opAllowed images op"
  by (cases "clientOk world") (simp_all add: buildAndSaveDockerImages_def buildAndSaveLoop_allowed)

text \<open>
  C10: the embedder decides by the shape of the canonical reference alone. For a
  reference that ends in \<open>:latest\<close> and contains no \<open>/\<close> the only request is a
  compose build of the service named by the reference; for any other reference the
  requests are pulls of that reference, first for \<open>linux/arm64\<close> and then without
  platform, and no build. Over the whole list of images, every build requested is
  for an image of that shape and every pull for an image of another shape. The
  explicit image \<open>redis:latest\<close> of a service, which is not a synthesized name, is
  built and not pulled.
\<close>

theorem buildOrPullImage_decides_by_shape:
  "(HasSuffix (img_Name img) '':latest'' \<longrightarrow> \<not> Contains (img_Name img) ''/'' \<longrightarrow>
      fst (buildOrPullImage world img workingDir)
        = [ComposeBuild (TrimSuffix (img_Name img) '':latest'') workingDir])
   \<and> (\<not> (HasSuffix (img_Name img) '':latest'' \<and> \<not> Contains (img_Name img) ''/'') \<longrightarrow>
      buildOrPullImage world img workingDir
        = (if imagePullOk world (img_Name img) ''linux/arm64''
           then [ImagePull (img_Name img) ''linux/arm64'']
           else [ImagePull (img_Name img) ''linux/arm64'', ImagePull (img_Name img) []],
           None))
   \<and> (\<forall>op \<in> set (fst (buildAndSaveDockerImages world images workingDir)). opAllowed images op)
   \<and> resolveImages
        [(''redis'', \<lparr>svc_Name = ''redis'', svc_Image = ''redis:latest'', svc_Build = None\<rparr>)]
        = [newDockerImage ''redis:latest'']
   \<and> fst (buildOrPullImage world (newDockerImage ''redis:latest'') workingDir)
        = [ComposeBuild ''redis'' workingDir]"
proof (intro conjI impI ballI)
  assume "HasSuffix (img_Name img) '':latest''" "\<not> Contains (img_Name img) ''/''"
  then show "fst (buildOrPullImage world img workingDir)
        = [ComposeBuild (TrimSuffix (img_Name img) '':latest'') workingDir]"
    by (simp add: buildOrPullImage_local)
next
  assume "\<not> (HasSuffix (img_Name img) '':latest'' \<and> \<not> Contains (img_Name img) ''/'')"
  then show "buildOrPullImage world img workingDir
        = (if imagePullOk world (img_Name img) ''linux/arm64''
           then [ImagePull (img_Name img) ''linux/arm64'']
           else [ImagePull (img_Name img) ''linux/arm64'', ImagePull (img_Name img) []],
           None)"
    by (rule buildOrPullImage_pull)
next
  fix op assume "op \<in> set (fst (buildAndSaveDockerImages world images workingDir))"
  then show "opAllowed images op" by (rule buildAndSaveDockerImages_allowed)
next
  show "resolveImages
        [(''redis'', \<lparr>svc_Name = ''redis'', svc_Image = ''redis:latest'', svc_Build = None\<rparr>)]
        = [newDockerImage ''redis:latest'']"
    by (simp add: resolveImages_def imageNameOf_def Let_def)
next
  have "HasSuffix ''redis:latest'' '':latest''" "\<not> Contains ''redis:latest'' ''/''"
    by (simp_all add: HasSuffix_def suffix_to_prefix)
  then show "fst (buildOrPullImage world (newDockerImage ''redis:latest'') workingDir)
        = [ComposeBuild ''redis'' workingDir]"
    by (simp add: buildOrPullImage_local img_Name_newDockerImage TrimSuffix_def)
qed

text \<open>
  Witness for C10: \<open>redis:latest\<close> is built, \<open>postgres:16\<close> and
  \<open>ghcr.io/acme/web:latest\<close> are pulled.
\<close>

theorem buildOrPullImage_decides_by_shape_witness:
  "HasSuffix (img_Name (newDockerImage ''redis:latest'')) '':latest''
   \<and> \<not> Contains (img_Name (newDockerImage ''redis:latest'')) ''/''
   \<and> fst (buildOrPullImage exampleWorld (newDockerImage ''redis:latest'') ''/proj'')
        = [ComposeBuild ''redis'' ''/proj'']
   \<and> \<not> (HasSuffix (img_Name (newDockerImage ''postgres:16'')) '':latest''
          \<and> \<not> Contains (img_Name (newDockerImage ''postgres:16'')) ''/'')
   \<and> buildOrPullImage exampleWorld (newDockerImage ''postgres:16'') ''/proj''
        = ([ImagePull ''postgres:16'' ''linux/arm64''], None)
   \<and> \<not> (HasSuffix (img_Name (newDockerImage ''ghcr.io/acme/web:latest'')) '':latest''
          \<and> \<not> Contains (img_Name (newDockerImage ''ghcr.io/acme/web:latest'')) ''/'')
   \<and> buildOrPullImage exampleWorld (newDockerImage ''ghcr.io/acme/web:latest'') ''/proj''
        = ([ImagePull ''ghcr.io/acme/web:latest'' ''linux/arm64''], None)
   \<and> list_all (opAllowed [newDockerImage ''redis:latest'', newDockerImage ''postgres:16''])
        (fst (buildAndSaveDockerImages exampleWorld
          [newDockerImage ''redis:latest'', newDockerImage ''postgres:16''] ''/proj''))
   \<and> ComposeBuild ''redis'' ''/proj'' \<in> set (fst (buildAndSaveDockerImages exampleWorld
          [newDockerImage ''redis:latest'', newDockerImage ''postgres:16''] ''/proj''))"
proof -
  have r1: "HasSuffix (img_Name (newDockerImage ''redis:latest'')) '':latest''"
    and r2: "\<not> Contains (img_Name (newDockerImage ''redis:latest'')) ''/''"
    by (simp_all add: img_Name_newDockerImage HasSuffix_def suffix_to_prefix)
  have p: "\<not> (HasSuffix (img_Name (newDockerImage ''postgres:16'')) '':latest''
          \<and> \<not> Contains (img_Name (newDockerImage ''postgres:16'')) ''/'')"
    by (simp add: img_Name_newDockerImage HasSuffix_def suffix_to_prefix)
  have g: "\<not> (HasSuffix (img_Name (newDockerImage ''ghcr.io/acme/web:latest'')) '':latest''
          \<and> \<not> Contains (img_Name (newDockerImage ''ghcr.io/acme/web:latest'')) ''/'')"
    by (simp add: img_Name_newDockerImage)
  note T = buildOrPullImage_decides_by_shape
  have a: "fst (buildOrPullImage exampleWorld (newDockerImage ''redis:latest'') ''/proj'')
        = [ComposeBuild ''redis'' ''/proj'']"
    using T [of "newDockerImage ''redis:latest''" exampleWorld "''/proj''" "[]"] by blast
  have "buildOrPullImage exampleWorld (newDockerImage ''postgres:16'') ''/proj''
        = (if imagePullOk exampleWorld (img_Name (newDockerImage ''postgres:16'')) ''linux/arm64''
           then [ImagePull (img_Name (newDockerImage ''postgres:16'')) ''linux/arm64'']
           else [ImagePull (img_Name (newDockerImage ''postgres:16'')) ''linux/arm64'',
                 ImagePull (img_Name (newDockerImage ''postgres:16'')) []],
           None)"
    using T [of "newDockerImage ''postgres:16''" exampleWorld "''/proj''" "[]"] p by blast
  then have b: "buildOrPullImage exampleWorld (newDockerImage ''postgres:16'') ''/proj''
        = ([ImagePull ''postgres:16'' ''linux/arm64''], None)"
    by (simp add: exampleWorld_def img_Name_newDockerImage)
  have "buildOrPullImage exampleWorld (newDockerImage ''ghcr.io/acme/web:latest'') ''/proj''
        = (if imagePullOk exampleWorld (img_Name (newDockerImage ''ghcr.io/acme/web:latest'')) ''linux/arm64''
           then [ImagePull (img_Name (newDockerImage ''ghcr.io/acme/web:latest'')) ''linux/arm64'']
           else [ImagePull (img_Name (newDockerImage ''ghcr.io/acme/web:latest'')) ''linux/arm64'',
                 ImagePull (img_Name (newDockerImage ''ghcr.io/acme/web:latest'')) []],
           None)"
    using T [of "newDockerImage ''ghcr.io/acme/web:latest''" exampleWorld "''/proj''" "[]"] g by blast
  then have c: "buildOrPullImage exampleWorld (newDockerImage ''ghcr.io/acme/web:latest'') ''/proj''
        = ([ImagePull ''ghcr.io/acme/web:latest'' ''linux/arm64''], None)"
    by (simp add: exampleWorld_def img_Name_newDockerImage)
  have d: "\<forall>op \<in> set (fst (buildAndSaveDockerImages exampleWorld
          [newDockerImage ''redis:latest'', newDockerImage ''postgres:16''] ''/proj'')).
        opAllowed [newDockerImage ''redis:latest'', newDockerImage ''postgres:16''] op"
    using T [of "newDockerImage ''redis:latest''" exampleWorld "''/proj''"
               "[newDockerImage ''redis:latest'', newDockerImage ''postgres:16'']"] by blast
  have a': "buildOrPullImage exampleWorld (newDockerImage ''redis:latest'') ''/proj''
        = ([ComposeBuild ''redis'' ''/proj''], None)"
    using a r1 r2 by (simp add: buildOrPullImage_local exampleWorld_def)
  have e: "ComposeBuild ''redis'' ''/proj'' \<in> set (fst (buildAndSaveDockerImages exampleWorld
          [newDockerImage ''redis:latest'', newDockerImage ''postgres:16''] ''/proj''))"
    by (simp add: buildAndSaveDockerImages_def exampleWorld_def [symmetric] a' b
          split: prod.splits option.splits)
       (simp add: exampleWorld_def)
  from r1 r2 a p b g c d e show ?thesis unfolding list_all_iff by blast
qed


section \<open>Properties of the template renderer\<close>

lemma filter_same_key:
  "distinct (map fst zs) \<Longrightarrow> k \<in> set zs \<Longrightarrow> filter (\<lambda>x. fst k = fst x) zs = [k]"
proof (induction zs)
  case Nil
  then show ?case by simp
next
  case (Cons z zs)
  show ?case
  proof (cases "k = z")
    case True
    have "filter (\<lambda>x. fst z = fst x) zs = []"
      using Cons.prems(1) by (auto simp: filter_empty_conv)
    with True show ?thesis by simp
  next
    case False
    with Cons.prems have k: "k \<in> set zs" by simp
    then have "fst k \<in> set (map fst zs)" by simp
    moreover have "fst z \<notin> set (map fst zs)" using Cons.prems(1) by simp
    ultimately have "fst k \<noteq> fst z" by metis
    with Cons.IH k Cons.prems(1) show ?thesis by simp
  qed
qed

lemma sort_key_sameGoMap:
  assumes "sameGoMap xs ys"
  shows "sort_key fst xs = sort_key fst ys"
proof (rule properties_for_sort_key)
  from assms have dx: "distinct (map fst xs)" and dy: "distinct (map fst ys)"
    and s: "set xs = set ys" by (simp_all add: sameGoMap_def)
  have "distinct xs" "distinct ys" using dx dy by (auto simp: distinct_map)
  then have m: "mset xs = mset ys" using s by (simp add: set_eq_iff_mset_eq_distinct)
  show "mset (sort_key fst ys) = mset xs" using m by simp
  show "sorted (map fst (sort_key fst ys))" by simp
  fix k assume "k \<in> set (sort_key fst ys)"
  then have k: "k \<in> set ys" "k \<in> set xs" using s by simp_all
  have "filter (\<lambda>x. fst k = fst x) (sort_key fst ys) = sort_key fst (filter (\<lambda>x. fst k = fst x) ys)"
    by (simp add: filter_sort)
  also have "\<dots> = [k]" using filter_same_key [OF dy k(1)] by simp
  also have "\<dots> = filter (\<lambda>x. fst k = fst x) xs" using filter_same_key [OF dx k(2)] by simp
  finally show "filter (\<lambda>x. fst k = fst x) (sort_key fst ys) = filter (\<lambda>x. fst k = fst x) xs" .
qed

lemma templateData_equal:
  assumes "equalConfiguration a b"
  shows "templateData a = templateData b"
proof -
  have n: "sort_key fst (w_Networks (sf_Wireless a)) = sort_key fst (w_Networks (sf_Wireless b))"
    using assms by (intro sort_key_sameGoMap) (simp add: equalConfiguration_def)
  have w: "(sf_Wireless a)\<lparr>w_Networks := sort_key fst (w_Networks (sf_Wireless a))\<rparr>
         = (sf_Wireless b)\<lparr>w_Networks := sort_key fst (w_Networks (sf_Wireless b))\<rparr>"
    using assms n by (cases "sf_Wireless a", cases "sf_Wireless b") (simp add: equalConfiguration_def)
  show ?thesis
    using assms w by (cases a, cases b) (simp add: templateData_def equalConfiguration_def)
qed

text \<open>
  C7: two calls of \<open>GenerateImage\<close> on configurations that are equal as Go values
  (equal ssh keys, user name, wireless flag, output, container configuration with
  its resolved images, autodiscovery flag and binary path, and wireless networks
  that are the same map) return the same result, byte for byte, whatever order the
  two maps hold their entries in.
\<close>

theorem GenerateImage_deterministic:
  assumes "equalConfiguration a b"
  shows "GenerateImage Parse (templateExecute render) imageNixTemplate a
           = GenerateImage Parse (templateExecute render) imageNixTemplate b"
proof -
  have t: "templateData a = templateData b"
    using assms by (rule templateData_equal)
  show ?thesis unfolding GenerateImage_def templateExecute_def t ..
qed

text \<open>
  Witness for C7: the two example configurations hold the same networks in different
  orders and render to the same text.
\<close>

theorem GenerateImage_deterministic_witness:
  "equalConfiguration exampleConfigA exampleConfigB
   \<and> w_Networks (sf_Wireless exampleConfigA) \<noteq> w_Networks (sf_Wireless exampleConfigB)
   \<and> GenerateImage Inr (templateExecute exampleRender) ''networks: '' exampleConfigA
       = GenerateImage Inr (templateExecute exampleRender) ''networks: '' exampleConfigB
   \<and> GenerateImage Inr (templateExecute exampleRender) ''networks: '' exampleConfigB
       = Inr ''networks: homework''"
proof -
  have e: "equalConfiguration exampleConfigA exampleConfigB"
    by (auto simp add: equalConfiguration_def sameGoMap_def exampleConfigA_def exampleConfigB_def)
  have d: "w_Networks (sf_Wireless exampleConfigA) \<noteq> w_Networks (sf_Wireless exampleConfigB)"
    by (simp add: exampleConfigA_def exampleConfigB_def)
  have v: "GenerateImage Inr (templateExecute exampleRender) ''networks: '' exampleConfigB
             = Inr ''networks: homework''"
    by (simp add: GenerateImage_def templateExecute_def templateData_def exampleRender_def
        exampleConfigA_def exampleConfigB_def)
  from GenerateImage_deterministic [OF e, of Inr exampleRender "''networks: ''"] e d v
  show ?thesis by blast
qed

end
